theory Spec2Isabelle
  imports Complex_Main "HOL-Library.AList" "HOL-Library.Char_ord" "HOL-Library.List_Lexorder"
begin

section \<open>Screen Time Tracker: the background worker\<close>

text \<open>
  The model follows \<^verbatim>\<open>src/Screen-Time-Tracker/background.js\<close>. The worker keeps four
  global variables (the session) and a persisted key-value document (the store); every
  listener is a function from the state before the event to the state after it. The
  report of the popup, \<^verbatim>\<open>src/Screen-Time-Tracker/popup.js\<close>, reads the same store and
  follows in its own section.

  Conventions of the embedding:
  \<^item> a JavaScript object used as a dictionary is an association list in insertion order,
    read with \<open>map_of\<close> and written with \<open>AList.update\<close> (an existing key keeps its place,
    a new key goes to the end, as in a JavaScript object whose keys are not array indices).
    The list holds the object's own properties. A lookup by host name in the worker
    (\<^verbatim>\<open>activityData[currentDomain]\<close>, \<^verbatim>\<open>domains[currentDomain]\<close>) that finds no own
    property goes on to \<^verbatim>\<open>Object.prototype\<close>; the members found there are part of the
    model (\<open>inheritedTruthy\<close>);
  \<^item> numbers are mathematical integers: time values, seconds and counters stay far below
    \<open>2^53\<close>, where the arithmetic of the source (\<^verbatim>\<open>-\<close>, \<^verbatim>\<open>+=\<close>,
    \<^verbatim>\<open>Math.floor(x / 1000)\<close>) is exact;
  \<^item> \<^verbatim>\<open>null\<close> and \<^verbatim>\<open>undefined\<close> are \<open>None\<close>; the truth value JavaScript gives
    to a string or a number in \<^verbatim>\<open>!x\<close> and \<^verbatim>\<open>x && y\<close> is written out
    (\<open>truthy_str\<close>, \<open>truthy_num\<close>);
  \<^item> what the host supplies during one listener run is the record \<open>env\<close>: every reading of
    the clock (named by the source line that reads it), the URL parser \<^verbatim>\<open>new URL\<close>, the
    UTC offsets of the time zone that \<^verbatim>\<open>setDate\<close> works with, and whether
    \<^verbatim>\<open>chrome.storage.local.get/set\<close> resolve or reject;
  \<^item> a listener runs to its end before the next one starts (no interleaving at
    \<^verbatim>\<open>await\<close>).
\<close>

subsection \<open>Data\<close>

record domain_stat =
  totalTime :: int
  visits :: int
  lastVisit :: int
  dailyBreakdown :: "(string \<times> int) list"

text \<open>The entries of \<^verbatim>\<open>dailyData\<close>; the field \<open>dayTotalTime\<close> is \<^verbatim>\<open>totalTime\<close> in the source.\<close>

record day_stat =
  dayTotalTime :: int
  domains :: "(string \<times> int) list"

text \<open>
  The persisted document. An absent \<^verbatim>\<open>activityData\<close> or \<^verbatim>\<open>dailyData\<close> is read as
  \<^verbatim>\<open>{}\<close> by every reader (\<^verbatim>\<open>result.activityData || {}\<close>), so both are plain lists here.
\<close>

record store =
  activityData :: "(string \<times> domain_stat) list"
  dailyData :: "(string \<times> day_stat) list"
  lastCleanup :: "int option"

text \<open>
  The four globals of lines 4-7, the store, and the one property that the worker itself
  can add to \<^verbatim>\<open>Object.prototype\<close>: \<open>prototypeLastVisit\<close> is
  \<^verbatim>\<open>Object.prototype.lastVisit\<close>, absent when the worker starts (see \<open>saveCurrentSession\<close>).
\<close>

record state =
  currentTabId :: "int option"
  currentDomain :: "string option"
  sessionStartTime :: "int option"
  isWindowFocused :: bool
  storage :: store
  prototypeLastVisit :: "int option"

text \<open>The two fields of a parsed \<^verbatim>\<open>URL\<close> object that matter here.\<close>

record url =
  protocol :: string
  hostname :: string

record tab =
  tab_id :: int
  tab_url :: "string option"

text \<open>
  The offset of the host's local time from UTC at some instant, in milliseconds (local
  time minus UTC): less than a day in either direction, and \<open>utc\<close> for no offset.
\<close>

typedef utc_offset = "{m :: int. - 86400000 < m \<and> m < 86400000}"
  morphisms offsetMs UtcOffset
  by (rule exI [of _ 0]) simp

setup_lifting type_definition_utc_offset

lift_definition utc :: utc_offset is 0
  by simp

record env =
  newURL :: "string \<Rightarrow> url option"
  now52 :: int
  now60 :: int
  now71 :: int
  now79 :: int
  now109 :: int
  now188 :: int
  now199 :: int
  now204 :: int
  offset204 :: utc_offset
  offset205 :: utc_offset
  now220 :: int
  get_ok :: bool
  set_ok :: bool

text \<open>
  \<open>newURL e u = None\<close> stands for \<^verbatim>\<open>new URL(u)\<close> throwing. \<open>now204 e\<close> is the time
  value of \<^verbatim>\<open>new Date()\<close> at line 204, and \<open>offset204 e\<close> the offset of the host's
  time zone at that instant; \<open>offset205 e\<close> is the offset of the time zone on the day
  that \<^verbatim>\<open>setDate\<close> reaches at line 205, the same as \<open>offset204 e\<close> unless the zone
  changes its offset (daylight saving) between the two days.
\<close>

text \<open>
  How a flush can fail. \<open>StorageError\<close>: \<^verbatim>\<open>chrome.storage.local.get\<close> or \<^verbatim>\<open>set\<close>
  rejects. \<open>TypeError\<close>: line 82 reads \<^verbatim>\<open>dailyBreakdown[dateKey]\<close> of \<^verbatim>\<open>undefined\<close>.
  \<open>StringStored\<close>: line 99 adds the seconds to an inherited function, which gives a
  string, and stores that string under the host name; the document written is then
  outside the type \<open>store\<close> (its \<^verbatim>\<open>domains\<close> hold numbers), and the model follows the
  worker no further.
\<close>

datatype error = StorageError | TypeError | StringStored

definition truthy_str :: "string option \<Rightarrow> bool" where
  "truthy_str x = (case x of None \<Rightarrow> False | Some s \<Rightarrow> s \<noteq> [])"

definition truthy_num :: "int option \<Rightarrow> bool" where
  "truthy_num x = (case x of None \<Rightarrow> False | Some n \<Rightarrow> n \<noteq> 0)"

text \<open>An absent counter read as 0, as \<^verbatim>\<open>if (!m[k]) m[k] = 0\<close> makes it.\<close>

definition orZero :: "int option \<Rightarrow> int" where
  "orZero x = (case x of None \<Rightarrow> 0 | Some v \<Rightarrow> v)"

subsection \<open>Date keys\<close>

text \<open>
  \<^verbatim>\<open>getDateKey(t)\<close> is \<^verbatim>\<open>new Date(t).toISOString().split("T")[0]\<close>: the UTC calendar
  date of the time value \<open>t\<close> (milliseconds since 1970-01-01), as \<^verbatim>\<open>YYYY-MM-DD\<close>, with a
  sign and six digits for a year outside 0..9999. The calendar date is computed from the
  day number by the usual era/day-of-era arithmetic of the proleptic Gregorian calendar.
  Every time value passed here is a reading of the clock, so the \<^verbatim>\<open>RangeError\<close> of
  \<^verbatim>\<open>toISOString\<close> on an invalid date does not arise.
\<close>

definition digit :: "int \<Rightarrow> char" where
  "digit k = ''0123456789'' ! nat k"

fun pad :: "nat \<Rightarrow> int \<Rightarrow> string" where
  "pad 0 n = []"
| "pad (Suc w) n = pad w (n div 10) @ [digit (n mod 10)]"

definition civil :: "int \<Rightarrow> int \<times> int \<times> int" where
  "civil days =
     (let z = days + 719468;
          era = z div 146097;
          doe = z - era * 146097;
          yoe = (doe - doe div 1460 + doe div 36524 - doe div 146096) div 365;
          doy = doe - (365 * yoe + yoe div 4 - yoe div 100);
          mp = (5 * doy + 2) div 153;
          d = doy - (153 * mp + 2) div 5 + 1;
          m = (if mp < 10 then mp + 3 else mp - 9);
          y = yoe + era * 400 + (if m \<le> 2 then 1 else 0)
      in (y, m, d))"

definition yearString :: "int \<Rightarrow> string" where
  "yearString y =
     (if 0 \<le> y \<and> y \<le> 9999 then pad 4 y
      else (if y < 0 then ''-'' else ''+'') @ pad 6 \<bar>y\<bar>)"

definition getDateKey :: "int \<Rightarrow> string" where
  "getDateKey timestamp =
     (case civil (timestamp div 86400000) of
        (y, m, d) \<Rightarrow> yearString y @ ''-'' @ pad 2 m @ ''-'' @ pad 2 d)"

subsection \<open>Members inherited from Object.prototype\<close>

text \<open>
  The names that every plain object inherits from \<^verbatim>\<open>Object.prototype\<close>. Read through
  an object that has no own property of that name, \<^verbatim>\<open>__proto__\<close> gives
  \<^verbatim>\<open>Object.prototype\<close> itself and each of the others a function: all are true in
  \<^verbatim>\<open>!x\<close>. A host name of an http URL is in lower case, which leaves
  \<^verbatim>\<open>constructor\<close> and \<^verbatim>\<open>__proto__\<close>; the URL parser of the model may return any
  string.
\<close>

definition objectPrototypeNames :: "string list" where
  "objectPrototypeNames =
     [''constructor'', ''__proto__'', ''__defineGetter__'', ''__defineSetter__'',
      ''__lookupGetter__'', ''__lookupSetter__'', ''hasOwnProperty'', ''isPrototypeOf'',
      ''propertyIsEnumerable'', ''toLocaleString'', ''toString'', ''valueOf'']"

text \<open>
  \<open>inheritedTruthy plv d\<close>: an object without an own property \<open>d\<close> still answers
  \<^verbatim>\<open>obj[d]\<close> with a value that is true in \<^verbatim>\<open>!obj[d]\<close>. \<open>plv\<close> is
  \<^verbatim>\<open>Object.prototype.lastVisit\<close>, a number once the worker has written it.
\<close>

definition inheritedTruthy :: "int option \<Rightarrow> string \<Rightarrow> bool" where
  "inheritedTruthy plv d \<longleftrightarrow>
     d \<in> set objectPrototypeNames \<or> (d = ''lastVisit'' \<and> truthy_num plv)"

subsection \<open>Domain resolution\<close>

text \<open>
  \<^verbatim>\<open>getDomainFromUrl\<close>, lines 31-38. The argument is \<open>None\<close> when the caller passes
  \<^verbatim>\<open>undefined\<close> (a tab without a readable \<^verbatim>\<open>url\<close>): \<^verbatim>\<open>new URL(undefined)\<close> throws, and
  the \<^verbatim>\<open>catch\<close> returns \<^verbatim>\<open>null\<close>.
\<close>

definition getDomainFromUrl :: "env \<Rightarrow> string option \<Rightarrow> string option" where
  "getDomainFromUrl e u =
     (case u of
        None \<Rightarrow> None
      | Some str \<Rightarrow> (case newURL e str of None \<Rightarrow> None | Some urlObj \<Rightarrow> Some (hostname urlObj)))"

subsection \<open>Closing a session\<close>

text \<open>
  Lines 67-74: the entry of the domain that lines 77-85 update, a fresh one when the
  domain has none. Lines 88-93: the same for the entry of the day.
\<close>

definition domainEntry :: "env \<Rightarrow> store \<Rightarrow> string \<Rightarrow> domain_stat" where
  "domainEntry e st d =
     (case map_of (activityData st) d of
        None \<Rightarrow> \<lparr>totalTime = 0, visits = 0, lastVisit = now71 e, dailyBreakdown = []\<rparr>
      | Some x \<Rightarrow> x)"

definition dayEntry :: "store \<Rightarrow> string \<Rightarrow> day_stat" where
  "dayEntry st dateKey =
     (case map_of (dailyData st) dateKey of
        None \<Rightarrow> \<lparr>dayTotalTime = 0, domains = []\<rparr>
      | Some y \<Rightarrow> y)"

text \<open>
  Lines 96-99 on the \<^verbatim>\<open>domains\<close> of the day: \<^verbatim>\<open>if (!m[d]) m[d] = 0; m[d] += secs\<close>.
  An own entry grows by the seconds, and a name found nowhere gets an entry of the
  seconds. A name that is found on the prototype only skips line 97, and line 99 adds the
  seconds to what was found: for \<^verbatim>\<open>__proto__\<close> the assignment goes to the inherited
  setter, which ignores a string, and \<^verbatim>\<open>domains\<close> stays as it was; for
  \<^verbatim>\<open>lastVisit\<close> the sum of that number and the seconds becomes an own entry; for a
  function the result is a string (\<open>None\<close> here).
\<close>

definition addDomainSeconds ::
  "int option \<Rightarrow> string \<Rightarrow> int \<Rightarrow> (string \<times> int) list \<Rightarrow> (string \<times> int) list option" where
  "addDomainSeconds plv d secs doms =
     (case map_of doms d of
        Some v \<Rightarrow> Some (AList.update d (v + secs) doms)
      | None \<Rightarrow>
          if \<not> inheritedTruthy plv d then Some (AList.update d (0 + secs) doms)
          else if d = ''__proto__'' then Some doms
          else if d = ''lastVisit'' then Some (AList.update d (orZero plv + secs) doms)
          else None)"

text \<open>
  Lines 63-99 of \<^verbatim>\<open>saveCurrentSession\<close>: the update of the two maps once the store has
  been read. When \<^verbatim>\<open>activityData\<close> has no own entry for the domain and the name is
  found on the prototype, line 67 skips the initialisation, lines 77-79 write to the
  inherited object, and line 82 throws, because that object has no
  \<^verbatim>\<open>dailyBreakdown\<close>. The date key is the result of \<^verbatim>\<open>getDateKey\<close>, which begins
  with a digit or a sign and is the name of no inherited member (lemma
  \<open>getDateKey_name\<close>), so the lookups by date key read own properties.
\<close>

definition recordSession ::
  "env \<Rightarrow> int option \<Rightarrow> string \<Rightarrow> int \<Rightarrow> string \<Rightarrow> store \<Rightarrow> error + store" where
  "recordSession e plv d secs dateKey st =
     (if map_of (activityData st) d = None \<and> inheritedTruthy plv d then Inl TypeError
      else
        (let ds0 = domainEntry e st d;
             b0 = orZero (map_of (dailyBreakdown ds0) dateKey);
             ds1 = \<lparr>totalTime = totalTime ds0 + secs,
                    visits = visits ds0 + 1,
                    lastVisit = now79 e,
                    dailyBreakdown = AList.update dateKey (b0 + secs) (dailyBreakdown ds0)\<rparr>;
             dy0 = dayEntry st dateKey
         in case addDomainSeconds plv d secs (domains dy0) of
              None \<Rightarrow> Inl StringStored
            | Some domains1 \<Rightarrow>
                Inr (st\<lparr>activityData := AList.update d ds1 (activityData st),
                        dailyData := AList.update dateKey
                           \<lparr>dayTotalTime = dayTotalTime dy0 + secs, domains = domains1\<rparr>
                           (dailyData st)\<rparr>)))"

text \<open>
  \<^verbatim>\<open>saveCurrentSession\<close>, lines 47-103. \<open>Inl (err, s')\<close> is the rejection of the promise,
  with the state the worker is left in; nothing has been persisted then (for
  \<open>StringStored\<close> see above). The function assigns to none of the four globals. When
  the host name is \<^verbatim>\<open>__proto__\<close> and lines 77-79 run on the inherited object, that object
  is \<^verbatim>\<open>Object.prototype\<close>, and line 79 leaves \<^verbatim>\<open>Object.prototype.lastVisit\<close> set to
  the clock (lines 77 and 78 leave \<^verbatim>\<open>totalTime\<close> and \<^verbatim>\<open>visits\<close> there as
  \<^verbatim>\<open>NaN\<close>, which no reader takes for an entry).
\<close>

definition saveCurrentSession :: "env \<Rightarrow> state \<Rightarrow> (error \<times> state) + state" where
  "saveCurrentSession e s =
     (if \<not> truthy_str (currentDomain s) \<or> \<not> truthy_num (sessionStartTime s)
         \<or> \<not> isWindowFocused s
      then Inr s
      else
        (case (currentDomain s, sessionStartTime s) of
           (Some d, Some t0) \<Rightarrow>
             (let sessionDuration = now52 e - t0;
                  durationInSeconds = sessionDuration div 1000
              in if durationInSeconds < 1 then Inr s
                 else
                   (let dateKey = getDateKey (now60 e)
                    in if \<not> get_ok e then Inl (StorageError, s)
                       else
                         (case recordSession e (prototypeLastVisit s) d durationInSeconds
                                 dateKey (storage s) of
                            Inl TypeError \<Rightarrow>
                              Inl (TypeError,
                                   if d = ''__proto__''
                                   then s\<lparr>prototypeLastVisit := Some (now79 e)\<rparr> else s)
                          | Inl err \<Rightarrow>
                              if \<not> set_ok e then Inl (StorageError, s) else Inl (err, s)
                          | Inr st' \<Rightarrow>
                              if \<not> set_ok e then Inl (StorageError, s)
                              else Inr (s\<lparr>storage := st'\<rparr>))))
         | _ \<Rightarrow> Inr s))"

subsection \<open>The listeners\<close>

text \<open>\<^verbatim>\<open>startTracking\<close>, lines 106-110.\<close>

definition startTracking :: "env \<Rightarrow> int \<Rightarrow> string \<Rightarrow> state \<Rightarrow> state" where
  "startTracking e tabId domain s =
     s\<lparr>currentTabId := Some tabId, currentDomain := Some domain,
       sessionStartTime := Some (now109 e)\<rparr>"

text \<open>The three assignments of lines 125-127 and 145-147.\<close>

definition resetSession :: "state \<Rightarrow> state" where
  "resetSession s = s\<lparr>currentTabId := None, currentDomain := None, sessionStartTime := None\<rparr>"

text \<open>
  \<^verbatim>\<open>chrome.tabs.onActivated\<close>, lines 113-132. \<open>tabResult = None\<close> is
  \<^verbatim>\<open>chrome.tabs.get\<close> rejecting (the tab is gone): the \<^verbatim>\<open>catch\<close> logs and leaves the
  globals as they are. The \<^verbatim>\<open>await saveCurrentSession()\<close> of line 115 stands outside the
  \<^verbatim>\<open>try\<close>: when it rejects, the listener stops there.
\<close>

definition onActivated :: "env \<Rightarrow> int \<Rightarrow> tab option \<Rightarrow> state \<Rightarrow> state" where
  "onActivated e tabId tabResult s =
     (case saveCurrentSession e s of
        Inl (err, s') \<Rightarrow> s'
      | Inr s1 \<Rightarrow>
          (case tabResult of
             None \<Rightarrow> s1
           | Some t \<Rightarrow>
               (case getDomainFromUrl e (tab_url t) of
                  Some domain \<Rightarrow>
                    if domain \<noteq> [] \<and> isWindowFocused s1 then startTracking e tabId domain s1
                    else resetSession s1
                | None \<Rightarrow> resetSession s1)))"

text \<open>\<^verbatim>\<open>chrome.tabs.onUpdated\<close>, lines 135-150; \<open>changeUrl\<close> is \<^verbatim>\<open>changeInfo.url\<close>.\<close>

definition onUpdated :: "env \<Rightarrow> int \<Rightarrow> string option \<Rightarrow> state \<Rightarrow> state" where
  "onUpdated e tabId changeUrl s =
     (if truthy_str changeUrl \<and> currentTabId s = Some tabId then
        (case saveCurrentSession e s of
           Inl (err, s') \<Rightarrow> s'
         | Inr s1 \<Rightarrow>
             (case getDomainFromUrl e changeUrl of
                Some domain \<Rightarrow>
                  if domain \<noteq> [] \<and> isWindowFocused s1 then startTracking e tabId domain s1
                  else resetSession s1
              | None \<Rightarrow> resetSession s1))
      else s)"

definition WINDOW_ID_NONE :: int where
  "WINDOW_ID_NONE = - 1"

text \<open>
  \<^verbatim>\<open>chrome.windows.onFocusChanged\<close>, lines 153-180. \<open>tabsResult\<close> is the answer of
  \<^verbatim>\<open>chrome.tabs.query\<close> for the focused window (\<open>None\<close> when it rejects). The branch of
  a window gaining focus calls no \<^verbatim>\<open>saveCurrentSession\<close> and has no \<^verbatim>\<open>else\<close> after
  \<^verbatim>\<open>if (domain)\<close>.
\<close>

definition onFocusChanged :: "env \<Rightarrow> int \<Rightarrow> tab list option \<Rightarrow> state \<Rightarrow> state" where
  "onFocusChanged e windowId tabsResult s =
     (if windowId = WINDOW_ID_NONE then
        (case saveCurrentSession e s of
           Inl (err, s') \<Rightarrow> s'
         | Inr s1 \<Rightarrow> s1\<lparr>isWindowFocused := False, sessionStartTime := None\<rparr>)
      else
        (let s1 = s\<lparr>isWindowFocused := True\<rparr>
         in case tabsResult of
              None \<Rightarrow> s1
            | Some [] \<Rightarrow> s1
            | Some (t # ts) \<Rightarrow>
                (case getDomainFromUrl e (tab_url t) of
                   Some domain \<Rightarrow> if domain \<noteq> [] then startTracking e (tab_id t) domain s1 else s1
                 | None \<Rightarrow> s1)))"

text \<open>
  \<^verbatim>\<open>chrome.alarms.onAlarm\<close>, lines 183-191. \<^verbatim>\<open>saveCurrentSession()\<close> is not awaited: its
  checks and the duration are computed before line 187 runs, its write lands afterwards,
  and a rejection is not seen by the listener.
\<close>

definition onAlarm :: "env \<Rightarrow> string \<Rightarrow> state \<Rightarrow> state" where
  "onAlarm e name s =
     (if name = ''saveActivity'' then
        (let s1 = (case saveCurrentSession e s of Inl (err, s') \<Rightarrow> s' | Inr s' \<Rightarrow> s')
         in if truthy_str (currentDomain s1) \<and> isWindowFocused s1
            then s1\<lparr>sessionStartTime := Some (now188 e)\<rparr>
            else s1)
      else s)"

text \<open>The query at worker start, lines 229-241.\<close>

definition onStartup :: "env \<Rightarrow> tab list option \<Rightarrow> state \<Rightarrow> state" where
  "onStartup e tabsResult s =
     (case tabsResult of
        None \<Rightarrow> s
      | Some [] \<Rightarrow> s
      | Some (t # ts) \<Rightarrow>
          (case getDomainFromUrl e (tab_url t) of
             Some domain \<Rightarrow> if domain \<noteq> [] then startTracking e (tab_id t) domain s else s
           | None \<Rightarrow> s))"

subsection \<open>The retention sweep\<close>

text \<open>
  The loop of lines 208-215: the entries kept, in their order, and \<^verbatim>\<open>removedCount\<close>.
  \<^verbatim>\<open>dateKey < cutoffKey\<close> compares strings code unit by code unit, which is the
  lexicographic order on character lists. (\<^verbatim>\<open>for ... in\<close> also visits the enumerable
  properties that \<open>saveCurrentSession\<close> may have left on \<^verbatim>\<open>Object.prototype\<close>,
  \<^verbatim>\<open>totalTime\<close>, \<^verbatim>\<open>visits\<close> and \<^verbatim>\<open>lastVisit\<close>; none of them is below a date
  key, lemma \<open>getDateKey_name\<close>, so the loop passes them by.)
\<close>

fun removeOld :: "string \<Rightarrow> (string \<times> 'v) list \<Rightarrow> (string \<times> 'v) list \<times> nat" where
  "removeOld cutoffKey [] = ([], 0)"
| "removeOld cutoffKey ((dateKey, v) # rest) =
     (case removeOld cutoffKey rest of
        (kept, removedCount) \<Rightarrow>
          if dateKey < cutoffKey then (kept, removedCount + 1)
          else ((dateKey, v) # kept, removedCount))"

text \<open>\<^verbatim>\<open>result.lastCleanup || 0\<close>, line 196.\<close>

definition lastCleanupOr0 :: "store \<Rightarrow> int" where
  "lastCleanupOr0 st = (case lastCleanup st of None \<Rightarrow> 0 | Some t \<Rightarrow> t)"

text \<open>
  Lines 204-205: \<^verbatim>\<open>cutoffDate.getTime()\<close> after \<^verbatim>\<open>setDate(getDate() - 90)\<close>.
  \<^verbatim>\<open>setDate\<close> works on the local time of the date, the time value plus the offset of
  line 204: it goes back 90 days of 24 hours on the local calendar and keeps the local
  time of day; the local time reached is turned back into a time value with the offset
  that holds on that day.
\<close>

definition cutoffTime :: "env \<Rightarrow> int" where
  "cutoffTime e =
     (let localTime = now204 e + offsetMs (offset204 e);
          newDate = localTime - 90 * (24 * 60 * 60 * 1000)
      in newDate - offsetMs (offset205 e))"

text \<open>Line 206.\<close>

definition cutoffKey :: "env \<Rightarrow> string" where
  "cutoffKey e = getDateKey (cutoffTime e)"

text \<open>\<^verbatim>\<open>cleanupOldData\<close>, lines 194-223.\<close>

definition cleanupOldData :: "env \<Rightarrow> state \<Rightarrow> error + state" where
  "cleanupOldData e s =
     (if \<not> get_ok e then Inl StorageError
      else
        (let lastCleanup0 = lastCleanupOr0 (storage s)
         in if now199 e - lastCleanup0 < 24 * 60 * 60 * 1000 then Inr s
            else
              (case removeOld (cutoffKey e) (dailyData (storage s)) of
                 (kept, removedCount) \<Rightarrow>
                   if removedCount > 0 then
                     (if \<not> set_ok e then Inl StorageError
                      else Inr (s\<lparr>storage := (storage s)\<lparr>dailyData := kept,
                                                lastCleanup := Some (now220 e)\<rparr>\<rparr>))
                   else Inr s)))"

subsection \<open>Events\<close>

datatype event =
    TabActivated int "tab option"
  | TabUpdated int "string option"
  | FocusChanged int "tab list option"
  | Alarm string
  | ProcessStart "tab list option"
  | Cleanup

text \<open>
  One event, with what the host supplies while its listener runs. \<open>Cleanup\<close> is the call of
  line 226; a rejected \<^verbatim>\<open>cleanupOldData()\<close> leaves everything as it was.
\<close>

fun step :: "state \<Rightarrow> env \<times> event \<Rightarrow> state" where
  "step s (e, TabActivated tabId tabResult) = onActivated e tabId tabResult s"
| "step s (e, TabUpdated tabId changeUrl) = onUpdated e tabId changeUrl s"
| "step s (e, FocusChanged windowId tabsResult) = onFocusChanged e windowId tabsResult s"
| "step s (e, Alarm name) = onAlarm e name s"
| "step s (e, ProcessStart tabsResult) = onStartup e tabsResult s"
| "step s (e, Cleanup) = (case cleanupOldData e s of Inl err \<Rightarrow> s | Inr s' \<Rightarrow> s')"

definition run :: "(env \<times> event) list \<Rightarrow> state \<Rightarrow> state" where
  "run evs s = foldl step s evs"

text \<open>
  The globals as lines 4-7 initialise them, over an empty store, with
  \<^verbatim>\<open>Object.prototype\<close> as the host made it.
\<close>

definition initial :: state where
  "initial = \<lparr>currentTabId = None, currentDomain = None, sessionStartTime = None,
              isWindowFocused = True,
              storage = \<lparr>activityData = [], dailyData = [], lastCleanup = None\<rparr>,
              prototypeLastVisit = None\<rparr>"

subsection \<open>Reading the store\<close>

text \<open>
  \<^verbatim>\<open>activityData[d].dailyBreakdown[date]\<close> and \<^verbatim>\<open>dailyData[date].domains[d]\<close>, with
  \<open>None\<close> for \<^verbatim>\<open>undefined\<close> at either level, and \<^verbatim>\<open>activityData[d].totalTime\<close> read
  as 0 for a domain without an entry.
\<close>

definition breakdownAt :: "store \<Rightarrow> string \<Rightarrow> string \<Rightarrow> int option" where
  "breakdownAt st d date =
     (case map_of (activityData st) d of None \<Rightarrow> None | Some ds \<Rightarrow> map_of (dailyBreakdown ds) date)"

definition domainSecondsAt :: "store \<Rightarrow> string \<Rightarrow> string \<Rightarrow> int option" where
  "domainSecondsAt st date d =
     (case map_of (dailyData st) date of None \<Rightarrow> None | Some dy \<Rightarrow> map_of (domains dy) d)"

definition totalTimeOf :: "store \<Rightarrow> string \<Rightarrow> int" where
  "totalTimeOf st d = (case map_of (activityData st) d of None \<Rightarrow> 0 | Some ds \<Rightarrow> totalTime ds)"

text \<open>\<^verbatim>\<open>activityData[d].visits\<close> and \<^verbatim>\<open>dailyData[date].totalTime\<close>, 0 without an entry.\<close>

definition visitsOf :: "store \<Rightarrow> string \<Rightarrow> int" where
  "visitsOf st d = (case map_of (activityData st) d of None \<Rightarrow> 0 | Some ds \<Rightarrow> visits ds)"

definition dayTotalTimeOf :: "store \<Rightarrow> string \<Rightarrow> int" where
  "dayTotalTimeOf st date =
     (case map_of (dailyData st) date of None \<Rightarrow> 0 | Some dy \<Rightarrow> dayTotalTime dy)"

text \<open>The whole seconds between the start of the session and the reading of line 52.\<close>

definition elapsedSeconds :: "env \<Rightarrow> state \<Rightarrow> int" where
  "elapsedSeconds e s =
     (case sessionStartTime s of None \<Rightarrow> 0 | Some t0 \<Rightarrow> (now52 e - t0) div 1000)"

text \<open>
  The store that \<open>recordSession\<close> returns when neither lookup of the host name reads an
  inherited member (lemma \<open>recordSession_plain\<close>).
\<close>

definition upsert :: "env \<Rightarrow> string \<Rightarrow> int \<Rightarrow> string \<Rightarrow> store \<Rightarrow> store" where
  "upsert e d secs dateKey st =
     (let ds0 = domainEntry e st d;
          b0 = orZero (map_of (dailyBreakdown ds0) dateKey);
          ds1 = \<lparr>totalTime = totalTime ds0 + secs,
                 visits = visits ds0 + 1,
                 lastVisit = now79 e,
                 dailyBreakdown = AList.update dateKey (b0 + secs) (dailyBreakdown ds0)\<rparr>;
          dy0 = dayEntry st dateKey;
          x0 = orZero (map_of (domains dy0) d);
          dy1 = \<lparr>dayTotalTime = dayTotalTime dy0 + secs,
                 domains = AList.update d (x0 + secs) (domains dy0)\<rparr>
      in st\<lparr>activityData := AList.update d ds1 (activityData st),
            dailyData := AList.update dateKey dy1 (dailyData st)\<rparr>)"

subsection \<open>Properties of a store\<close>

text \<open>The keys of every object are distinct: the lists stand for JavaScript objects.\<close>

definition keysDistinct :: "store \<Rightarrow> bool" where
  "keysDistinct st \<longleftrightarrow>
     distinct (map fst (activityData st)) \<and> distinct (map fst (dailyData st))
     \<and> (\<forall>ds \<in> snd ` set (activityData st). distinct (map fst (dailyBreakdown ds)))
     \<and> (\<forall>dy \<in> snd ` set (dailyData st). distinct (map fst (domains dy)))"

text \<open>
  No host name used as a key, in \<^verbatim>\<open>activityData\<close> or in the \<^verbatim>\<open>domains\<close> of a day, is
  the name of a member of \<^verbatim>\<open>Object.prototype\<close>.
\<close>

definition plainNames :: "(string \<times> domain_stat) list \<Rightarrow> (string \<times> day_stat) list \<Rightarrow> bool" where
  "plainNames ad dd \<longleftrightarrow>
     (\<forall>d \<in> fst ` set ad. d \<notin> set objectPrototypeNames)
     \<and> (\<forall>day \<in> set dd. \<forall>d \<in> fst ` set (domains (snd day)). d \<notin> set objectPrototypeNames)"

definition plainKeys :: "store \<Rightarrow> bool" where
  "plainKeys st \<longleftrightarrow> plainNames (activityData st) (dailyData st)"

definition domainSumsOk :: "store \<Rightarrow> bool" where
  "domainSumsOk st \<longleftrightarrow>
     (\<forall>d ds. map_of (activityData st) d = Some ds \<longrightarrow>
        sum_list (map snd (dailyBreakdown ds)) = totalTime ds)"

definition daySumsOk :: "store \<Rightarrow> bool" where
  "daySumsOk st \<longleftrightarrow>
     (\<forall>date dy. map_of (dailyData st) date = Some dy \<longrightarrow>
        sum_list (map snd (domains dy)) = dayTotalTime dy)"

text \<open>Every pair present in a day's entry has the same seconds in the domain's breakdown.\<close>

definition dayPairsMatch :: "store \<Rightarrow> bool" where
  "dayPairsMatch st \<longleftrightarrow>
     (\<forall>date d v. domainSecondsAt st date d = Some v \<longrightarrow> breakdownAt st d date = Some v)"

text \<open>
  The pairs of the two maps, with the dates that sweeps may have removed: every pair of a
  day's entry is in the domain's breakdown with the same seconds, and every pair of a
  domain's breakdown is in the day's entry with the same seconds, unless the store has no
  entry for that date and the date is below one of the cutoff keys \<open>C\<close>. With \<open>C\<close> empty
  the pairs of the two maps are the same.
\<close>

definition pairsUpTo :: "string set \<Rightarrow> store \<Rightarrow> bool" where
  "pairsUpTo C st \<longleftrightarrow>
     dayPairsMatch st
     \<and> (\<forall>d date v. breakdownAt st d date = Some v \<longrightarrow>
          domainSecondsAt st date d = Some v
          \<or> (map_of (dailyData st) date = None \<and> (\<exists>c \<in> C. date < c)))"

definition storeInv :: "string set \<Rightarrow> store \<Rightarrow> bool" where
  "storeInv C st \<longleftrightarrow> domainSumsOk st \<and> daySumsOk st \<and> pairsUpTo C st"

text \<open>The cutoff keys of the sweeps of a run.\<close>

definition cutoffKeys :: "(env \<times> event) list \<Rightarrow> string set" where
  "cutoffKeys evs = set (map (\<lambda>x. cutoffKey (fst x)) (filter (\<lambda>x. snd x = Cleanup) evs))"

text \<open>
  The clock of a run does not fall back behind a sweep: after a \<open>Cleanup\<close> event, no later
  event is dated (line 60) before that sweep's cutoff key, which lies some 90 days before
  the sweep.
\<close>

fun clockOk :: "(env \<times> event) list \<Rightarrow> bool" where
  "clockOk [] = True"
| "clockOk ((e, ev) # rest) =
     ((ev = Cleanup \<longrightarrow>
         (\<forall>later \<in> set rest. \<not> getDateKey (now60 (fst later)) < cutoffKey e))
      \<and> clockOk rest)"

subsection \<open>Properties of the session\<close>

text \<open>A session with a start time has a domain that JavaScript treats as true.\<close>

definition started_has_domain :: "state \<Rightarrow> bool" where
  "started_has_domain s \<longleftrightarrow> (sessionStartTime s \<noteq> None \<longrightarrow> truthy_str (currentDomain s))"

subsection \<open>Sample inputs\<close>

text \<open>A parser that knows five URLs, with the answers the URL standard gives for them.\<close>

definition sampleURL :: "string \<Rightarrow> url option" where
  "sampleURL u =
     (if u = ''https://example.com/page'' then Some \<lparr>protocol = ''https:'', hostname = ''example.com''\<rparr>
      else if u = ''chrome://newtab/'' then Some \<lparr>protocol = ''chrome:'', hostname = ''newtab''\<rparr>
      else if u = ''http://constructor/'' then Some \<lparr>protocol = ''http:'', hostname = ''constructor''\<rparr>
      else if u = ''http://__proto__/'' then Some \<lparr>protocol = ''http:'', hostname = ''__proto__''\<rparr>
      else if u = ''app://lastVisit/'' then Some \<lparr>protocol = ''app:'', hostname = ''lastVisit''\<rparr>
      else None)"

text \<open>
  Every reading of the clock is \<open>t\<close>; the time zone keeps one UTC offset; the store
  answers.
\<close>

definition envAt :: "int \<Rightarrow> env" where
  "envAt t = \<lparr>newURL = sampleURL, now52 = t, now60 = t, now71 = t, now79 = t, now109 = t,
              now188 = t, now199 = t, now204 = t, offset204 = utc, offset205 = utc,
              now220 = t, get_ok = True, set_ok = True\<rparr>"

definition exampleTab :: tab where
  "exampleTab = \<lparr>tab_id = 7, tab_url = Some ''https://example.com/page''\<rparr>"

definition newTab :: tab where
  "newTab = \<lparr>tab_id = 8, tab_url = Some ''chrome://newtab/''\<rparr>"

text \<open>A tab whose URL does not parse, and a tab without a readable URL.\<close>

definition brokenTab :: tab where
  "brokenTab = \<lparr>tab_id = 9, tab_url = Some ''not a url''\<rparr>"

definition hiddenTab :: tab where
  "hiddenTab = \<lparr>tab_id = 10, tab_url = None\<rparr>"

text \<open>Tabs whose host names are names of \<^verbatim>\<open>Object.prototype\<close>, or become one.\<close>

definition constructorTab :: tab where
  "constructorTab = \<lparr>tab_id = 11, tab_url = Some ''http://constructor/''\<rparr>"

definition protoTab :: tab where
  "protoTab = \<lparr>tab_id = 12, tab_url = Some ''http://__proto__/''\<rparr>"

definition lastVisitTab :: tab where
  "lastVisitTab = \<lparr>tab_id = 13, tab_url = Some ''app://lastVisit/''\<rparr>"

text \<open>A session on example.com opened at time 1000, over an empty store.\<close>

definition tracking :: state where
  "tracking = \<lparr>currentTabId = Some 7, currentDomain = Some ''example.com'',
               sessionStartTime = Some 1000, isWindowFocused = True,
               storage = \<lparr>activityData = [], dailyData = [], lastCleanup = None\<rparr>,
               prototypeLastVisit = None\<rparr>"

text \<open>The store after five seconds of example.com have been recorded on 1970-01-01.\<close>

definition fiveSeconds :: store where
  "fiveSeconds =
     \<lparr>activityData = [(''example.com'',
          \<lparr>totalTime = 5, visits = 1, lastVisit = 6000, dailyBreakdown = [(''1970-01-01'', 5)]\<rparr>)],
      dailyData = [(''1970-01-01'',
          \<lparr>dayTotalTime = 5, domains = [(''example.com'', 5)]\<rparr>)],
      lastCleanup = None\<rparr>"

definition tenSeconds :: store where
  "tenSeconds =
     \<lparr>activityData = [(''example.com'',
          \<lparr>totalTime = 10, visits = 2, lastVisit = 6000, dailyBreakdown = [(''1970-01-01'', 10)]\<rparr>)],
      dailyData = [(''1970-01-01'',
          \<lparr>dayTotalTime = 10, domains = [(''example.com'', 10)]\<rparr>)],
      lastCleanup = None\<rparr>"

text \<open>200 days after the epoch, in milliseconds.\<close>

definition day200 :: int where
  "day200 = 200 * 86400000"

text \<open>
  The five seconds of example.com with the last sweep 25 hours before day 200, and the
  same store once the sweep of day 200 has run.
\<close>

definition staleStore :: store where
  "staleStore = fiveSeconds\<lparr>lastCleanup := Some (day200 - 25 * 3600000)\<rparr>"

definition sweptStore :: store where
  "sweptStore =
     \<lparr>activityData = [(''example.com'',
          \<lparr>totalTime = 5, visits = 1, lastVisit = 6000, dailyBreakdown = [(''1970-01-01'', 5)]\<rparr>)],
      dailyData = [],
      lastCleanup = Some day200\<rparr>"

text \<open>
  A run: the worker starts on example.com at time 1000, the alarm fires at time 6000 and
  a sweep runs on day 200.
\<close>

definition sweepRun :: "(env \<times> event) list" where
  "sweepRun = [(envAt 1000, ProcessStart (Some [exampleTab])),
               (envAt 6000, Alarm ''saveActivity''),
               (envAt day200, Cleanup)]"

text \<open>The same run, with the alarm firing again one minute after the sweep.\<close>

definition longRun :: "(env \<times> event) list" where
  "longRun = sweepRun @ [(envAt (day200 + 60000), Alarm ''saveActivity'')]"

text \<open>A run: the worker starts on example.com at time 1000 and the window loses focus at 6000.\<close>

definition pauseRun :: "(env \<times> event) list" where
  "pauseRun = [(envAt 1000, ProcessStart (Some [exampleTab])),
               (envAt 6000, FocusChanged WINDOW_ID_NONE None)]"

text \<open>
  A run: the worker starts on example.com at time 1000; at 6000 the user activates a tab
  that is closed before \<^verbatim>\<open>chrome.tabs.get\<close> answers; at 9000 the user activates the
  new-tab page. Eight seconds of example.com have passed on the clock.
\<close>

definition lostTabRun :: "(env \<times> event) list" where
  "lostTabRun = [(envAt 1000, ProcessStart (Some [exampleTab])),
                 (envAt 6000, TabActivated 9 None),
                 (envAt 9000, TabActivated 8 (Some newTab))]"

text \<open>
  A run: the worker starts on example.com at time 1000; at 6000 the focus goes straight to
  another browser window, whose active tab is the new-tab page; at 9000 the browser loses
  the focus.
\<close>

definition windowRun :: "(env \<times> event) list" where
  "windowRun = [(envAt 1000, ProcessStart (Some [exampleTab])),
                (envAt 6000, FocusChanged 2 (Some [newTab])),
                (envAt 9000, FocusChanged WINDOW_ID_NONE None)]"

text \<open>
  A run: the worker starts on the host \<^verbatim>\<open>constructor\<close> at time 1000, and at 6000 the
  user activates the tab of example.com.
\<close>

definition constructorRun :: "(env \<times> event) list" where
  "constructorRun = [(envAt 1000, ProcessStart (Some [constructorTab])),
                     (envAt 6000, TabActivated 7 (Some exampleTab))]"

text \<open>
  A run that writes to \<^verbatim>\<open>Object.prototype\<close>: five seconds of the host \<^verbatim>\<open>lastVisit\<close>
  are recorded; the flush of three seconds of the host \<^verbatim>\<open>__proto__\<close> throws, after
  line 79 has set \<^verbatim>\<open>Object.prototype.lastVisit\<close> to 9000; on the next day the focus
  comes to a window on the host \<^verbatim>\<open>lastVisit\<close> again, and five seconds of it are
  flushed.
\<close>

definition pollutedRun :: "(env \<times> event) list" where
  "pollutedRun = [(envAt 1000, ProcessStart (Some [lastVisitTab])),
                  (envAt 6000, TabActivated 12 (Some protoTab)),
                  (envAt 9000, Alarm ''saveActivity''),
                  (envAt 90000000, FocusChanged 1 (Some [lastVisitTab])),
                  (envAt 90005000, Alarm ''saveActivity'')]"

section \<open>Screen Time Tracker: the popup's report\<close>

text \<open>
  \<^verbatim>\<open>processData\<close> of \<^verbatim>\<open>src/Screen-Time-Tracker/popup.js\<close>, lines 40-118. The seconds
  and counters of the store are integers as before; the visit estimate of lines 95-97 is
  the one place where the source leaves the integers, so the two double-precision
  operations there are modelled exactly.

  The popup runs in a page of its own, with an \<^verbatim>\<open>Object.prototype\<close> as the host made
  it. Its lookups by host name (\<^verbatim>\<open>domainStats[domain]\<close> at lines 68, 76 and 101,
  \<^verbatim>\<open>activityData[domain]\<close> at line 72) are modelled on own properties: this section is
  the report of a document in which no host name is the name of a member of
  \<^verbatim>\<open>Object.prototype\<close> (\<open>plainNames\<close>). Every document that the worker writes is one
  (lemma \<open>plainKeys_run\<close>), and the theorem about the report has it as a hypothesis.
\<close>

subsection \<open>Double-precision arithmetic on rationals\<close>

text \<open>
  A finite double is a rational \<open>m * 2^e\<close> with \<open>\<bar>m\<bar> < 2^53\<close>. Division and
  multiplication of doubles return the exact result rounded to the nearest double, ties
  to the even significand. \<open>toDouble\<close> is that rounding for results in the normal range
  (between \<open>2^-1022\<close> and \<open>2^1024\<close> in magnitude), where every operation on safe integers
  and their quotients stays.
\<close>

function bitLength :: "int \<Rightarrow> int" where
  "bitLength n = (if n \<le> 0 then 0 else 1 + bitLength (n div 2))"
  by auto
termination
  by (relation "measure nat") auto

declare bitLength.simps [simp del]

definition pow2 :: "int \<Rightarrow> rat" where
  "pow2 k = (if 0 \<le> k then 2 ^ nat k else 1 / 2 ^ nat (- k))"

text \<open>For \<open>q > 0\<close>: the \<open>k\<close> with \<open>2^k \<le> q < 2^(k+1)\<close>.\<close>

definition floorLog2 :: "rat \<Rightarrow> int" where
  "floorLog2 q =
     (case quotient_of q of
        (n, d) \<Rightarrow> (let k = bitLength n - bitLength d
                   in if pow2 k \<le> q then k else k - 1))"

definition roundHalfEven :: "rat \<Rightarrow> int" where
  "roundHalfEven x =
     (let f = \<lfloor>x\<rfloor>; r = x - of_int f
      in if r < 1 / 2 then f else if 1 / 2 < r then f + 1 else if even f then f else f + 1)"

text \<open>For \<open>q > 0\<close>: scale \<open>q\<close> into \<open>[2^52, 2^53)\<close>, round to an integer, scale back.\<close>

definition roundPos :: "rat \<Rightarrow> rat" where
  "roundPos q = (let e = floorLog2 q - 52 in of_int (roundHalfEven (q / pow2 e)) * pow2 e)"

definition toDouble :: "rat \<Rightarrow> rat" where
  "toDouble q = (if q = 0 then 0 else if q < 0 then - roundPos (- q) else roundPos q)"

subsection \<open>The report\<close>

text \<open>
  A number that may have left the finite doubles: \<open>None\<close> stands for \<^verbatim>\<open>Infinity\<close>,
  \<^verbatim>\<open>-Infinity\<close> or \<^verbatim>\<open>NaN\<close>. Adding anything to one of these three gives one of these
  three again.
\<close>

definition addNum :: "int option \<Rightarrow> int option \<Rightarrow> int option" where
  "addNum a b = (case a of None \<Rightarrow> None | Some x \<Rightarrow> (case b of None \<Rightarrow> None | Some y \<Rightarrow> Some (x + y)))"

text \<open>
  Lines 95-97: \<^verbatim>\<open>Math.ceil(domainData.visits * (domainData.dailyBreakdown[date] /
  domainData.totalTime))\<close>. The division is rounded, the product is rounded, the ceiling
  is exact. With \<^verbatim>\<open>totalTime\<close> 0 the quotient of a positive number is \<^verbatim>\<open>Infinity\<close>, and
  the product is \<^verbatim>\<open>Infinity\<close>, \<^verbatim>\<open>-Infinity\<close> or \<^verbatim>\<open>NaN\<close>.
\<close>

definition visitEstimate :: "int \<Rightarrow> int \<Rightarrow> int \<Rightarrow> int option" where
  "visitEstimate visitCount secs tot =
     (if tot = 0 then None
      else Some \<lceil>toDouble (of_int visitCount * toDouble (of_int secs / of_int tot))\<rceil>)"

text \<open>The entries of \<^verbatim>\<open>domainStats\<close>: \<^verbatim>\<open>time\<close>, \<^verbatim>\<open>visits\<close>, \<^verbatim>\<open>lastVisit\<close>.\<close>

record site_stat =
  site_time :: int
  site_visits :: "int option"
  site_lastVisit :: int

text \<open>What \<^verbatim>\<open>processData\<close> returns; \<open>report_totalTime\<close> is \<^verbatim>\<open>totalTime\<close> in the source.\<close>

record report =
  report_totalTime :: int
  totalVisits :: "int option"
  uniqueSites :: nat
  topSites :: "(string \<times> site_stat) list"

text \<open>
  Lines 44-53: \<^verbatim>\<open>startDate\<close>, \<^verbatim>\<open>undefined\<close> for a range that is none of the three.
  \<open>now\<close> is the time value of \<^verbatim>\<open>new Date()\<close> at line 41.
\<close>

definition startDateOf :: "int \<Rightarrow> string \<Rightarrow> string option" where
  "startDateOf now rng =
     (if rng = ''today'' then Some (getDateKey now)
      else if rng = ''week'' then Some (getDateKey (now - 7 * 24 * 60 * 60 * 1000))
      else if rng = ''month'' then Some (getDateKey (now - 30 * 24 * 60 * 60 * 1000))
      else None)"

text \<open>
  \<^verbatim>\<open>dateKey >= startDate && dateKey <= today\<close>; a comparison with \<^verbatim>\<open>undefined\<close> is
  false.
\<close>

definition inRange :: "string option \<Rightarrow> string \<Rightarrow> string \<Rightarrow> bool" where
  "inRange startDate today dateKey =
     (case startDate of None \<Rightarrow> False | Some sd \<Rightarrow> sd \<le> dateKey \<and> dateKey \<le> today)"

text \<open>
  \<^verbatim>\<open>activityData[domain]?.lastVisit || Date.now()\<close>, line 72; \<open>now72\<close> is that reading
  of the clock, one value for every entry created during the call.
\<close>

definition lastVisitOr :: "int \<Rightarrow> (string \<times> domain_stat) list \<Rightarrow> string \<Rightarrow> int" where
  "lastVisitOr now72 ad domain =
     (case map_of ad domain of
        None \<Rightarrow> now72
      | Some data \<Rightarrow> if lastVisit data = 0 then now72 else lastVisit data)"

text \<open>The body of the inner loop, lines 66-77, on \<^verbatim>\<open>domainStats\<close> and \<^verbatim>\<open>totalTime\<close>.\<close>

definition addSite ::
  "int \<Rightarrow> (string \<times> domain_stat) list \<Rightarrow> (string \<times> site_stat) list \<times> int \<Rightarrow> string \<times> int
     \<Rightarrow> (string \<times> site_stat) list \<times> int" where
  "addSite now72 ad acc entry =
     (case acc of (domainStats, tot) \<Rightarrow>
      case entry of (domain, timeForDay) \<Rightarrow>
        (let st0 = (case map_of domainStats domain of
                      None \<Rightarrow> \<lparr>site_time = 0, site_visits = Some 0,
                                site_lastVisit = lastVisitOr now72 ad domain\<rparr>
                    | Some st \<Rightarrow> st)
         in (AList.update domain (st0\<lparr>site_time := site_time st0 + timeForDay\<rparr>) domainStats,
             tot + timeForDay)))"

text \<open>The body of the outer loop, lines 62-79.\<close>

definition addDay ::
  "int \<Rightarrow> (string \<times> domain_stat) list \<Rightarrow> string option \<Rightarrow> string
     \<Rightarrow> (string \<times> site_stat) list \<times> int \<Rightarrow> string \<times> day_stat
     \<Rightarrow> (string \<times> site_stat) list \<times> int" where
  "addDay now72 ad startDate today acc entry =
     (case entry of (dateKey, dayData) \<Rightarrow>
        if inRange startDate today dateKey then foldl (addSite now72 ad) acc (domains dayData)
        else acc)"

text \<open>Lines 85-99: \<^verbatim>\<open>visitsInRange\<close> for one domain.\<close>

definition visitsInRange :: "string option \<Rightarrow> string \<Rightarrow> domain_stat \<Rightarrow> int option" where
  "visitsInRange startDate today domainData =
     foldl (\<lambda>acc entry. case entry of (date, secs) \<Rightarrow>
              if inRange startDate today date \<and> 0 < secs
              then addNum acc (visitEstimate (visits domainData) secs (totalTime domainData))
              else acc)
           (Some 0) (dailyBreakdown domainData)"

text \<open>The body of the second loop, lines 83-105, on \<^verbatim>\<open>domainStats\<close> and \<^verbatim>\<open>totalVisits\<close>.\<close>

definition setVisits ::
  "string option \<Rightarrow> string \<Rightarrow> (string \<times> site_stat) list \<times> int option \<Rightarrow> string \<times> domain_stat
     \<Rightarrow> (string \<times> site_stat) list \<times> int option" where
  "setVisits startDate today acc entry =
     (case acc of (domainStats, tot) \<Rightarrow>
      case entry of (domain, domainData) \<Rightarrow>
        (let v = visitsInRange startDate today domainData
         in case map_of domainStats domain of
              None \<Rightarrow> (domainStats, tot)
            | Some st \<Rightarrow> (AList.update domain (st\<lparr>site_visits := v\<rparr>) domainStats,
                         addNum tot v)))"

text \<open>
  \<^verbatim>\<open>domainStats\<close> after both loops, with the two totals. The sort of line 109 is stable
  and its comparator \<^verbatim>\<open>b[1].time - a[1].time\<close> puts the larger time first.
\<close>

definition siteStats ::
  "int \<Rightarrow> int \<Rightarrow> (string \<times> domain_stat) list \<Rightarrow> (string \<times> day_stat) list \<Rightarrow> string
     \<Rightarrow> ((string \<times> site_stat) list \<times> int) \<times> int option" where
  "siteStats now now72 ad dd rng =
     (let today = getDateKey now;
          startDate = startDateOf now rng;
          timed = foldl (addDay now72 ad startDate today) ([], 0) dd;
          counted = foldl (setVisits startDate today) (fst timed, Some 0) ad
      in ((fst counted, snd timed), snd counted))"

definition processData ::
  "int \<Rightarrow> int \<Rightarrow> (string \<times> domain_stat) list \<Rightarrow> (string \<times> day_stat) list \<Rightarrow> string \<Rightarrow> report" where
  "processData now now72 ad dd rng =
     (case siteStats now now72 ad dd rng of
        ((domainStats, tot), visitTotal) \<Rightarrow>
          (let sortedDomains = take 10 (sort_key (\<lambda>kv. - site_time (snd kv)) domainStats)
           in \<lparr>report_totalTime = tot, totalVisits = visitTotal,
               uniqueSites = length sortedDomains, topSites = sortedDomains\<rparr>))"

subsection \<open>The report in sums\<close>

text \<open>The seconds of a domain in the days of the range, entry by entry.\<close>

definition secondsInRange ::
  "string option \<Rightarrow> string \<Rightarrow> (string \<times> day_stat) list \<Rightarrow> string \<Rightarrow> int" where
  "secondsInRange startDate today dd d =
     sum_list (map (\<lambda>day. if inRange startDate today (fst day)
                           then sum_list (map snd (filter (\<lambda>kv. fst kv = d) (domains (snd day))))
                           else 0) dd)"

text \<open>The domains that occur in a day of the range.\<close>

definition domainsInRange :: "string option \<Rightarrow> string \<Rightarrow> (string \<times> day_stat) list \<Rightarrow> string set" where
  "domainsInRange startDate today dd =
     (\<Union>day \<in> set dd. if inRange startDate today (fst day) then fst ` set (domains (snd day)) else {})"

text \<open>The \<^verbatim>\<open>time\<close> of a domain in \<^verbatim>\<open>domainStats\<close>, 0 without an entry.\<close>

definition timeOf :: "(string \<times> site_stat) list \<Rightarrow> string \<Rightarrow> int" where
  "timeOf stats d = (case map_of stats d of None \<Rightarrow> 0 | Some st \<Rightarrow> site_time st)"

text \<open>\<^verbatim>\<open>domainStats\<close> before the second loop: distinct keys, every \<^verbatim>\<open>visits\<close> still 0.\<close>

definition freshStats :: "(string \<times> site_stat) list \<Rightarrow> bool" where
  "freshStats stats \<longleftrightarrow>
     distinct (map fst stats) \<and> (\<forall>kv \<in> set stats. site_visits (snd kv) = Some 0)"

text \<open>The sum of a list of numbers that may have left the finite doubles.\<close>

definition sumNums :: "int option list \<Rightarrow> int option" where
  "sumNums xs = foldr addNum xs (Some 0)"

text \<open>
  The estimates of a domain, one for each date of the range with positive seconds in its
  breakdown.
\<close>

definition estimatesInRange :: "string option \<Rightarrow> string \<Rightarrow> domain_stat \<Rightarrow> int option list" where
  "estimatesInRange startDate today domainData =
     map (\<lambda>kv. visitEstimate (visits domainData) (snd kv) (totalTime domainData))
         (filter (\<lambda>kv. inRange startDate today (fst kv) \<and> 0 < snd kv) (dailyBreakdown domainData))"

text \<open>
  The estimate as the words "the lifetime visit count scaled by the date's fraction of the
  lifetime total time, rounded up" read in exact arithmetic.
\<close>

definition exactEstimate :: "int \<Rightarrow> int \<Rightarrow> int \<Rightarrow> int" where
  "exactEstimate visitCount secs tot = \<lceil>(of_int visitCount * of_int secs / of_int tot :: rat)\<rceil>"

text \<open>
  A store for the report: 25 visits and 25 seconds of example.com in all, 7 of them on
  1970-01-01 and 18 a month earlier.
\<close>

definition reportActivity :: "(string \<times> domain_stat) list" where
  "reportActivity =
     [(''example.com'', \<lparr>totalTime = 25, visits = 25, lastVisit = 6000,
         dailyBreakdown = [(''1969-12-01'', 18), (''1970-01-01'', 7)]\<rparr>)]"

definition reportDaily :: "(string \<times> day_stat) list" where
  "reportDaily =
     [(''1969-12-01'', \<lparr>dayTotalTime = 18, domains = [(''example.com'', 18)]\<rparr>),
      (''1970-01-01'', \<lparr>dayTotalTime = 7, domains = [(''example.com'', 7)]\<rparr>)]"

section \<open>Proofs\<close>

subsection \<open>Lists as objects\<close>

lemma sum_snd_update:
  "sum_list (map snd (AList.update k v al)) =
     sum_list (map snd al) - (case map_of al k of None \<Rightarrow> 0 | Some x \<Rightarrow> x) + (v::int)"
  by (induction al) auto

lemma removeOld_eq:
  "removeOld c xs = (filter (\<lambda>kv. \<not> fst kv < c) xs, length (filter (\<lambda>kv. fst kv < c) xs))"
  by (induction c xs rule: removeOld.induct) simp_all

lemma map_of_filter_key:
  "map_of (filter (\<lambda>kv. P (fst kv)) xs) k = (if P k then map_of xs k else None)"
  by (induction xs) auto

lemma set_update_subset: "set (AList.update k v al) \<subseteq> insert (k, v) (set al)"
  by (induction al) auto

lemma all_snd_update:
  "\<forall>x \<in> snd ` set al. P x \<Longrightarrow> P v \<Longrightarrow> \<forall>x \<in> snd ` set (AList.update k v al). P x"
  using set_update_subset [of k v al] by fastforce

lemma keys_update: "fst ` set (AList.update k v al) = insert k (fst ` set al)"
  using dom_update [of k v al] by simp

subsection \<open>Date keys\<close>

lemma digit_member: "digit (n mod 10) \<in> set ''0123456789''"
proof -
  have "nat (n mod 10) < 10" by simp
  then have "''0123456789'' ! nat (n mod 10) \<in> set ''0123456789''"
    by (intro nth_mem) simp
  then show ?thesis by (simp only: digit_def)
qed

text \<open>A date key begins with a digit or a sign.\<close>

lemma getDateKey_head:
  "\<exists>c rest. getDateKey t = c # rest \<and> c \<in> set ''0123456789+-''"
proof -
  obtain y m d where c: "civil (t div 86400000) = (y, m, d)"
    by (cases "civil (t div 86400000)")
  have four: "pad 4 y = [digit (y div 10 div 10 div 10 mod 10), digit (y div 10 div 10 mod 10),
                         digit (y div 10 mod 10), digit (y mod 10)]"
    by (simp add: eval_nat_numeral)
  show ?thesis
  proof (cases "0 \<le> y \<and> y \<le> 9999")
    case True
    then have "getDateKey t = digit (y div 10 div 10 div 10 mod 10)
                 # ([digit (y div 10 div 10 mod 10), digit (y div 10 mod 10), digit (y mod 10)]
                    @ ''-'' @ pad 2 m @ ''-'' @ pad 2 d)"
      by (simp add: getDateKey_def c yearString_def four)
    moreover have "digit (y div 10 div 10 div 10 mod 10) \<in> set ''0123456789+-''"
      using digit_member [of "y div 10 div 10 div 10"] by auto
    ultimately show ?thesis by blast
  next
    case False
    then have "getDateKey t = (if y < 0 then CHR ''-'' else CHR ''+'')
                 # (pad 6 \<bar>y\<bar> @ ''-'' @ pad 2 m @ ''-'' @ pad 2 d)"
      by (simp add: getDateKey_def c yearString_def)
    then show ?thesis by auto
  qed
qed

text \<open>
  So a date key is the name of no member of \<^verbatim>\<open>Object.prototype\<close>, and none of the
  three names that the worker can leave there is below a date key.
\<close>

lemma getDateKey_name:
  "getDateKey t \<notin> set objectPrototypeNames" "getDateKey t \<noteq> ''lastVisit''"
  "\<not> ''lastVisit'' < getDateKey t" "\<not> ''totalTime'' < getDateKey t"
  "\<not> ''visits'' < getDateKey t"
proof -
  from getDateKey_head [of t] obtain c rest
    where key: "getDateKey t = c # rest" and c: "c \<in> set ''0123456789+-''"
    by blast
  from c have low: "c < CHR ''A''"
    by (auto simp: less_char_def)
  then have ne: "c \<noteq> CHR ''c''" "c \<noteq> CHR ''_''" "c \<noteq> CHR ''h''" "c \<noteq> CHR ''i''"
    "c \<noteq> CHR ''p''" "c \<noteq> CHR ''t''" "c \<noteq> CHR ''v''" "c \<noteq> CHR ''l''"
    by (auto simp: less_char_def)
  from low have up: "\<not> CHR ''l'' < c" "\<not> CHR ''t'' < c" "\<not> CHR ''v'' < c"
    by (auto simp: less_char_def)
  show "getDateKey t \<notin> set objectPrototypeNames"
    unfolding key using ne by (simp add: objectPrototypeNames_def)
  show "getDateKey t \<noteq> ''lastVisit''"
    unfolding key using ne by simp
  show "\<not> ''lastVisit'' < getDateKey t" "\<not> ''totalTime'' < getDateKey t"
    "\<not> ''visits'' < getDateKey t"
    unfolding key using ne up by simp_all
qed

subsection \<open>Inherited names\<close>

lemma example_not_inherited [simp]:
  "\<not> inheritedTruthy None ''example.com''" "\<not> inheritedTruthy None ''newtab''"
  "\<not> inheritedTruthy None ''lastVisit''"
  by (simp_all add: inheritedTruthy_def objectPrototypeNames_def truthy_num_def)

lemma constructor_inherited [simp]:
  "inheritedTruthy plv ''constructor''" "inheritedTruthy plv ''__proto__''"
  by (simp_all add: inheritedTruthy_def objectPrototypeNames_def)

lemma lastVisit_not_prototype: "''lastVisit'' \<notin> set objectPrototypeNames"
  by (simp add: objectPrototypeNames_def)

text \<open>A host name that reads no inherited member is recorded by the plain upsert.\<close>

lemma recordSession_plain:
  "\<not> inheritedTruthy plv d \<Longrightarrow> recordSession e plv d secs K st = Inr (upsert e d secs K st)"
  by (simp add: recordSession_def upsert_def addDomainSeconds_def orZero_def Let_def
      split: option.splits)

text \<open>
  A host name found on the prototype, without an entry of its own in
  \<^verbatim>\<open>activityData\<close>, is not recorded.
\<close>

lemma recordSession_inherited:
  "inheritedTruthy plv d \<Longrightarrow> map_of (activityData st) d = None
     \<Longrightarrow> recordSession e plv d secs K st = Inl TypeError"
  by (simp add: recordSession_def)

subsection \<open>The sample session\<close>

lemma envAt_simps [simp]:
  "newURL (envAt t) = sampleURL" "now52 (envAt t) = t" "now60 (envAt t) = t"
  "now71 (envAt t) = t" "now79 (envAt t) = t" "now109 (envAt t) = t" "now188 (envAt t) = t"
  "now199 (envAt t) = t" "now204 (envAt t) = t" "offset204 (envAt t) = utc"
  "offset205 (envAt t) = utc" "now220 (envAt t) = t" "get_ok (envAt t)" "set_ok (envAt t)"
  by (simp_all add: envAt_def)

lemma key6000: "getDateKey 6000 = ''1970-01-01''"
  by code_simp

lemma tracking_flush:
  "saveCurrentSession (envAt 6000) tracking = Inr (tracking\<lparr>storage := fiveSeconds\<rparr>)"
  by (simp add: key6000 saveCurrentSession_def tracking_def envAt_def fiveSeconds_def
      recordSession_plain upsert_def domainEntry_def dayEntry_def orZero_def
      truthy_str_def truthy_num_def Let_def)

lemma tracking_flush_again:
  "saveCurrentSession (envAt 6000) (tracking\<lparr>storage := fiveSeconds\<rparr>)
     = Inr (tracking\<lparr>storage := tenSeconds\<rparr>)"
  by (simp add: key6000 saveCurrentSession_def tracking_def envAt_def fiveSeconds_def
      tenSeconds_def recordSession_plain upsert_def domainEntry_def dayEntry_def orZero_def
      truthy_str_def truthy_num_def Let_def)

subsection \<open>The flush\<close>

lemma saveCurrentSession_Inr:
  assumes "saveCurrentSession e s = Inr s'"
  shows "s' = s
         \<or> (\<exists>d st'. currentDomain s = Some d \<and> d \<noteq> []
               \<and> recordSession e (prototypeLastVisit s) d (elapsedSeconds e s)
                    (getDateKey (now60 e)) (storage s) = Inr st'
               \<and> s' = s\<lparr>storage := st'\<rparr>)"
  using assms
  by (auto simp: saveCurrentSession_def truthy_str_def truthy_num_def elapsedSeconds_def Let_def
      split: option.splits if_splits sum.splits error.splits)

lemma saveCurrentSession_Inl:
  assumes "saveCurrentSession e s = Inl (err, s')"
  shows "s' = s \<or> s' = s\<lparr>prototypeLastVisit := Some (now79 e)\<rparr>"
  using assms
  by (auto simp: saveCurrentSession_def Let_def
      split: option.splits if_splits sum.splits error.splits)

lemma saveCurrentSession_unfocused:
  "\<not> isWindowFocused s \<or> sessionStartTime s = None \<or> currentDomain s = None
     \<Longrightarrow> saveCurrentSession e s = Inr s"
  by (auto simp: saveCurrentSession_def truthy_str_def truthy_num_def)

lemma upsert_breakdownAt:
  "breakdownAt (upsert e d0 secs K st) d date =
     (if d = d0 \<and> date = K then Some (orZero (breakdownAt st d0 K) + secs)
      else breakdownAt st d date)"
  by (auto simp: breakdownAt_def upsert_def domainEntry_def dayEntry_def orZero_def Let_def
      update_conv' split: option.splits)

lemma upsert_domainSecondsAt:
  "domainSecondsAt (upsert e d0 secs K st) date d =
     (if d = d0 \<and> date = K then Some (orZero (domainSecondsAt st K d0) + secs)
      else domainSecondsAt st date d)"
  by (auto simp: domainSecondsAt_def upsert_def domainEntry_def dayEntry_def orZero_def Let_def
      update_conv' split: option.splits)

lemma upsert_totalTimeOf:
  "totalTimeOf (upsert e d0 secs K st) d = totalTimeOf st d + (if d = d0 then secs else 0)"
  by (auto simp: totalTimeOf_def upsert_def domainEntry_def Let_def update_conv'
      split: option.splits)

lemma upsert_dailyData_None:
  "map_of (dailyData (upsert e d0 secs K st)) date = None
     \<longleftrightarrow> date \<noteq> K \<and> map_of (dailyData st) date = None"
  by (auto simp: upsert_def Let_def update_conv')

text \<open>
  C1, as the code has it. When the window is unfocused, or \<^verbatim>\<open>currentDomain\<close> or
  \<^verbatim>\<open>sessionStartTime\<close> is falsy (unset, the empty host name, the time value 0), or fewer
  than one whole second has elapsed, \<^verbatim>\<open>saveCurrentSession\<close> returns without an error and
  without touching anything, whatever the store would answer. Otherwise, when the store
  answers and the host name is not found on \<^verbatim>\<open>Object.prototype\<close>, it records the
  domain, the whole seconds elapsed and the date key of the current time: the domain's
  total, its breakdown entry of that date and the day's entry of the domain each grow by
  the seconds. The state it returns differs from the one it was given in the store only:
  the four session variables are as they were.
\<close>

theorem saveCurrentSession_contract:
  "(\<not> isWindowFocused s \<or> \<not> truthy_str (currentDomain s)
      \<or> \<not> truthy_num (sessionStartTime s) \<or> elapsedSeconds e s < 1
     \<longrightarrow> saveCurrentSession e s = Inr s)
   \<and> (isWindowFocused s \<and> currentDomain s = Some d \<and> d \<noteq> []
      \<and> truthy_num (sessionStartTime s) \<and> 1 \<le> elapsedSeconds e s \<and> get_ok e \<and> set_ok e
      \<and> \<not> inheritedTruthy (prototypeLastVisit s) d
     \<longrightarrow> (\<exists>st'. saveCurrentSession e s = Inr (s\<lparr>storage := st'\<rparr>)
            \<and> recordSession e (prototypeLastVisit s) d (elapsedSeconds e s)
                 (getDateKey (now60 e)) (storage s) = Inr st'
            \<and> totalTimeOf st' d = totalTimeOf (storage s) d + elapsedSeconds e s
            \<and> breakdownAt st' d (getDateKey (now60 e))
                = Some (orZero (breakdownAt (storage s) d (getDateKey (now60 e)))
                        + elapsedSeconds e s)
            \<and> domainSecondsAt st' (getDateKey (now60 e)) d
                = Some (orZero (domainSecondsAt (storage s) (getDateKey (now60 e)) d)
                        + elapsedSeconds e s)))"
proof (intro conjI impI)
  assume "\<not> isWindowFocused s \<or> \<not> truthy_str (currentDomain s)
      \<or> \<not> truthy_num (sessionStartTime s) \<or> elapsedSeconds e s < 1"
  then show "saveCurrentSession e s = Inr s"
    by (auto simp: saveCurrentSession_def truthy_str_def truthy_num_def elapsedSeconds_def
        Let_def split: option.splits)
next
  let ?K = "getDateKey (now60 e)"
  let ?secs = "elapsedSeconds e s"
  let ?st' = "upsert e d ?secs ?K (storage s)"
  assume a: "isWindowFocused s \<and> currentDomain s = Some d \<and> d \<noteq> []
      \<and> truthy_num (sessionStartTime s) \<and> 1 \<le> elapsedSeconds e s \<and> get_ok e \<and> set_ok e
      \<and> \<not> inheritedTruthy (prototypeLastVisit s) d"
  then have rec: "recordSession e (prototypeLastVisit s) d ?secs ?K (storage s) = Inr ?st'"
    by (simp add: recordSession_plain)
  from a obtain t0 where t0: "sessionStartTime s = Some t0" "t0 \<noteq> 0"
    by (cases "sessionStartTime s") (auto simp: truthy_num_def)
  have "saveCurrentSession e s = Inr (s\<lparr>storage := ?st'\<rparr>)"
    using a t0 rec
    by (simp add: saveCurrentSession_def truthy_str_def truthy_num_def elapsedSeconds_def Let_def)
  with rec show "\<exists>st'. saveCurrentSession e s = Inr (s\<lparr>storage := st'\<rparr>)
            \<and> recordSession e (prototypeLastVisit s) d ?secs ?K (storage s) = Inr st'
            \<and> totalTimeOf st' d = totalTimeOf (storage s) d + ?secs
            \<and> breakdownAt st' d ?K = Some (orZero (breakdownAt (storage s) d ?K) + ?secs)
            \<and> domainSecondsAt st' ?K d = Some (orZero (domainSecondsAt (storage s) ?K d) + ?secs)"
    by (intro exI [of _ ?st'])
       (simp add: upsert_totalTimeOf upsert_breakdownAt upsert_domainSecondsAt)
qed

text \<open>
  A session of 400 ms is dropped; a session of five seconds is recorded, and the session
  variables are still set afterwards.
\<close>

theorem saveCurrentSession_contract_witness:
  "elapsedSeconds (envAt 1400) tracking < 1
   \<and> saveCurrentSession (envAt 1400) tracking = Inr tracking
   \<and> 1 \<le> elapsedSeconds (envAt 6000) tracking
   \<and> \<not> inheritedTruthy (prototypeLastVisit tracking) ''example.com''
   \<and> saveCurrentSession (envAt 6000) tracking = Inr (tracking\<lparr>storage := fiveSeconds\<rparr>)
   \<and> totalTimeOf fiveSeconds ''example.com'' = 5
   \<and> breakdownAt fiveSeconds ''example.com'' ''1970-01-01'' = Some 5
   \<and> domainSecondsAt fiveSeconds ''1970-01-01'' ''example.com'' = Some 5"
proof -
  have short: "elapsedSeconds (envAt 1400) tracking < 1"
    and long: "1 \<le> elapsedSeconds (envAt 6000) tracking"
    and plain: "\<not> inheritedTruthy (prototypeLastVisit tracking) ''example.com''"
    and session: "isWindowFocused tracking" "currentDomain tracking = Some ''example.com''"
      "truthy_num (sessionStartTime tracking)"
    by (simp_all add: tracking_def envAt_def elapsedSeconds_def truthy_num_def)
  from saveCurrentSession_contract [of tracking "envAt 1400" "''example.com''"] short
  have dropped: "saveCurrentSession (envAt 1400) tracking = Inr tracking"
    by simp
  from saveCurrentSession_contract [of tracking "envAt 6000" "''example.com''"]
    long plain session
  obtain st' where saved: "saveCurrentSession (envAt 6000) tracking = Inr (tracking\<lparr>storage := st'\<rparr>)"
    and total: "totalTimeOf st' ''example.com''
                  = totalTimeOf (storage tracking) ''example.com''
                    + elapsedSeconds (envAt 6000) tracking"
    and breakdown: "breakdownAt st' ''example.com'' (getDateKey (now60 (envAt 6000)))
        = Some (orZero (breakdownAt (storage tracking) ''example.com''
                          (getDateKey (now60 (envAt 6000))))
                + elapsedSeconds (envAt 6000) tracking)"
    and day: "domainSecondsAt st' (getDateKey (now60 (envAt 6000))) ''example.com''
        = Some (orZero (domainSecondsAt (storage tracking) (getDateKey (now60 (envAt 6000)))
                          ''example.com'')
                + elapsedSeconds (envAt 6000) tracking)"
    by (auto simp: envAt_def)
  from saved tracking_flush have "tracking\<lparr>storage := st'\<rparr> = tracking\<lparr>storage := fiveSeconds\<rparr>"
    by simp
  then have "storage (tracking\<lparr>storage := st'\<rparr>) = storage (tracking\<lparr>storage := fiveSeconds\<rparr>)"
    by (rule arg_cong)
  then have st': "st' = fiveSeconds"
    by simp
  from total breakdown day show ?thesis
    unfolding st'
    using short long plain dropped tracking_flush
    by (simp add: key6000 tracking_def envAt_def elapsedSeconds_def orZero_def
        totalTimeOf_def breakdownAt_def domainSecondsAt_def)
qed

text \<open>
  C1 as stated fails: after a flush that recorded five seconds, the domain and the start
  time are both still set.
\<close>

theorem flush_clears_session_counterexample:
  "saveCurrentSession (envAt 6000) tracking = Inr (tracking\<lparr>storage := fiveSeconds\<rparr>)
   \<and> storage (tracking\<lparr>storage := fiveSeconds\<rparr>) \<noteq> storage tracking
   \<and> currentDomain (tracking\<lparr>storage := fiveSeconds\<rparr>) = Some ''example.com''
   \<and> sessionStartTime (tracking\<lparr>storage := fiveSeconds\<rparr>) = Some 1000"
  using tracking_flush by (simp add: tracking_def fiveSeconds_def)

text \<open>
  What the listeners do after the flush. The focus-lost listener sets
  \<^verbatim>\<open>isWindowFocused = false\<close> and \<^verbatim>\<open>sessionStartTime = null\<close>; once it has run with a
  flush that returned, a further flush changes nothing and raises nothing, and running
  the listener again changes nothing. The same holds for a flush after the reset of the
  tab listeners.
\<close>

lemma focus_lost_twice:
  assumes "saveCurrentSession e1 s = Inr s1"
  shows "saveCurrentSession e2 (onFocusChanged e1 WINDOW_ID_NONE r1 s)
           = Inr (onFocusChanged e1 WINDOW_ID_NONE r1 s)
         \<and> onFocusChanged e2 WINDOW_ID_NONE r2 (onFocusChanged e1 WINDOW_ID_NONE r1 s)
           = onFocusChanged e1 WINDOW_ID_NONE r1 s
         \<and> saveCurrentSession e2 (resetSession s) = Inr (resetSession s)"
proof -
  let ?c = "s1\<lparr>isWindowFocused := False, sessionStartTime := None\<rparr>"
  have c: "onFocusChanged e1 WINDOW_ID_NONE r1 s = ?c"
    by (simp add: onFocusChanged_def assms)
  have noop: "saveCurrentSession e2 ?c = Inr ?c"
    by (rule saveCurrentSession_unfocused) simp
  have again: "onFocusChanged e2 WINDOW_ID_NONE r2 ?c = ?c"
    by (simp add: onFocusChanged_def noop)
  have "saveCurrentSession e2 (resetSession s) = Inr (resetSession s)"
    by (rule saveCurrentSession_unfocused) (simp add: resetSession_def)
  with c noop again show ?thesis by simp
qed

lemma startup_tracking: "onStartup (envAt 1000) (Some [exampleTab]) initial = tracking"
  by (simp add: onStartup_def getDomainFromUrl_def exampleTab_def envAt_def sampleURL_def
      startTracking_def initial_def tracking_def)

text \<open>
  C2 fails on the code. The worker is on example.com since time 1000. At time 6000 the
  user activates a tab that is gone when \<^verbatim>\<open>chrome.tabs.get\<close> is asked for it: the
  listener has flushed five seconds (line 115), the \<^verbatim>\<open>catch\<close> of lines 129-131 only
  logs, and the session is left as it was, where the \<^verbatim>\<open>else\<close> branch of lines 125-127
  clears it. The same event once more, with no session opened in between, flushes the
  same five seconds again: the store holds ten seconds and two visits.
\<close>

theorem rejected_tab_counts_twice:
  "run [(envAt 1000, ProcessStart (Some [exampleTab]))] initial = tracking
   \<and> run [(envAt 6000, TabActivated 9 None)] tracking = tracking\<lparr>storage := fiveSeconds\<rparr>
   \<and> run [(envAt 6000, TabActivated 9 None), (envAt 6000, TabActivated 9 None)] tracking
       = tracking\<lparr>storage := tenSeconds\<rparr>
   \<and> totalTimeOf fiveSeconds ''example.com'' = 5 \<and> visitsOf fiveSeconds ''example.com'' = 1
   \<and> totalTimeOf tenSeconds ''example.com'' = 10 \<and> visitsOf tenSeconds ''example.com'' = 2"
proof -
  have runs: "run [(envAt 6000, TabActivated 9 None)] tracking = tracking\<lparr>storage := fiveSeconds\<rparr>"
    "run [(envAt 6000, TabActivated 9 None), (envAt 6000, TabActivated 9 None)] tracking
       = tracking\<lparr>storage := tenSeconds\<rparr>"
    by (simp_all add: run_def onActivated_def tracking_flush tracking_flush_again)
  have "run [(envAt 1000, ProcessStart (Some [exampleTab]))] initial = tracking"
    by (simp add: run_def startup_tracking)
  with runs show ?thesis
    by (simp add: totalTimeOf_def visitsOf_def fiveSeconds_def tenSeconds_def)
qed

subsection \<open>The retention sweep\<close>

lemma cutoff200: "getDateKey 9504000000 = ''1970-04-21''"
  by code_simp

lemma cutoffTime_bounds:
  "now204 e - 92 * 86400000 < cutoffTime e" "cutoffTime e < now204 e - 88 * 86400000"
  using offsetMs [of "offset204 e"] offsetMs [of "offset205 e"]
  by (simp_all add: cutoffTime_def Let_def)

lemma cutoffKey200: "cutoffKey (envAt day200) = ''1970-04-21''"
  by (simp add: cutoffKey_def cutoffTime_def utc.rep_eq day200_def cutoff200)

lemma day200_late: "86400000 \<le> day200" "\<not> day200 < 86400000"
  by (simp_all add: day200_def)

lemma cutoff_day200: "getDateKey (day200 - 7776000000) = ''1970-04-21''"
  by (simp add: day200_def cutoff200)

text \<open>
  C3, as the code has it. With the store answering: when less than 24 hours have passed
  since \<^verbatim>\<open>lastCleanup\<close> (read as 0 when unset) the sweep changes nothing. Otherwise it
  removes exactly the \<^verbatim>\<open>dailyData\<close> entries whose key is lexicographically below the
  cutoff key, and \<^verbatim>\<open>lastCleanup\<close> becomes the current time in that same write; when no
  entry is below the cutoff nothing is written, and \<^verbatim>\<open>lastCleanup\<close> stays as it was.
  The cutoff key is the date key of the cutoff time, which is the clock of line 204
  moved back by 90 days of 24 hours when the time zone has the same UTC offset on both
  days, and lies within two days of that in every time zone.
\<close>

theorem cleanupOldData_contract:
  "(get_ok e \<and> now199 e - lastCleanupOr0 (storage s) < 86400000
      \<longrightarrow> cleanupOldData e s = Inr s)
   \<and> (get_ok e \<and> set_ok e \<and> 86400000 \<le> now199 e - lastCleanupOr0 (storage s)
        \<and> (\<exists>kv \<in> set (dailyData (storage s)). fst kv < cutoffKey e)
      \<longrightarrow> cleanupOldData e s
            = Inr (s\<lparr>storage := (storage s)
                    \<lparr>dailyData := filter (\<lambda>kv. \<not> fst kv < cutoffKey e) (dailyData (storage s)),
                     lastCleanup := Some (now220 e)\<rparr>\<rparr>))
   \<and> (get_ok e \<and> 86400000 \<le> now199 e - lastCleanupOr0 (storage s)
        \<and> (\<forall>kv \<in> set (dailyData (storage s)). \<not> fst kv < cutoffKey e)
      \<longrightarrow> cleanupOldData e s = Inr s)
   \<and> cutoffKey e = getDateKey (cutoffTime e)
   \<and> (offset205 e = offset204 e \<longrightarrow> cutoffTime e = now204 e - 90 * 86400000)
   \<and> now204 e - 92 * 86400000 < cutoffTime e \<and> cutoffTime e < now204 e - 88 * 86400000"
proof -
  let ?old = "\<lambda>kv :: string \<times> day_stat. fst kv < cutoffKey e"
  have some: "(\<exists>kv \<in> set (dailyData (storage s)). ?old kv)
                \<Longrightarrow> 0 < length (filter ?old (dailyData (storage s)))"
    by (simp add: filter_empty_conv)
  have none: "(\<forall>kv \<in> set (dailyData (storage s)). \<not> ?old kv)
                \<Longrightarrow> length (filter ?old (dailyData (storage s))) = 0"
    by (simp add: filter_empty_conv)
  have key: "cutoffKey e = getDateKey (cutoffTime e)"
    by (simp add: cutoffKey_def)
  have same: "cutoffTime e = now204 e - 90 * 86400000" if "offset205 e = offset204 e"
    using that by (simp add: cutoffTime_def Let_def)
  have sweep: "(get_ok e \<and> now199 e - lastCleanupOr0 (storage s) < 86400000
      \<longrightarrow> cleanupOldData e s = Inr s)
   \<and> (get_ok e \<and> set_ok e \<and> 86400000 \<le> now199 e - lastCleanupOr0 (storage s)
        \<and> (\<exists>kv \<in> set (dailyData (storage s)). fst kv < cutoffKey e)
      \<longrightarrow> cleanupOldData e s
            = Inr (s\<lparr>storage := (storage s)
                    \<lparr>dailyData := filter (\<lambda>kv. \<not> fst kv < cutoffKey e) (dailyData (storage s)),
                     lastCleanup := Some (now220 e)\<rparr>\<rparr>))
   \<and> (get_ok e \<and> 86400000 \<le> now199 e - lastCleanupOr0 (storage s)
        \<and> (\<forall>kv \<in> set (dailyData (storage s)). \<not> fst kv < cutoffKey e)
      \<longrightarrow> cleanupOldData e s = Inr s)"
    using some none by (auto simp: cleanupOldData_def removeOld_eq Let_def)
  have close: "now204 e - 92 * 86400000 < cutoffTime e \<and> cutoffTime e < now204 e - 88 * 86400000"
    using cutoffTime_bounds [of e] by simp
  show ?thesis
    apply (rule conjI [OF conjunct1 [OF sweep]])
    apply (rule conjI [OF conjunct1 [OF conjunct2 [OF sweep]]])
    apply (rule conjI [OF conjunct2 [OF conjunct2 [OF sweep]]])
    apply (rule conjI [OF key])
    apply (rule conjI [OF _ close])
    apply (rule impI)
    apply (erule same)
    done
qed

text \<open>
  On day 200: a store swept a moment ago is left alone; a store swept 25 hours ago loses
  its entry of 1970-01-01, which is below the cutoff key 1970-04-21, and gets the new
  marker; a store without day entries is left alone although its marker is unset.
\<close>

theorem cleanupOldData_contract_witness:
  "cleanupOldData (envAt day200) (tracking\<lparr>storage := sweptStore\<rparr>)
     = Inr (tracking\<lparr>storage := sweptStore\<rparr>)
   \<and> cleanupOldData (envAt day200) (tracking\<lparr>storage := staleStore\<rparr>)
     = Inr (tracking\<lparr>storage := sweptStore\<rparr>)
   \<and> cleanupOldData (envAt day200) (tracking\<lparr>storage := fiveSeconds\<lparr>dailyData := []\<rparr>\<rparr>)
     = Inr (tracking\<lparr>storage := fiveSeconds\<lparr>dailyData := []\<rparr>\<rparr>)
   \<and> cutoffKey (envAt day200) = ''1970-04-21''
   \<and> cutoffTime (envAt day200) = day200 - 90 * 86400000"
proof -
  let ?e = "envAt day200"
  note key = cutoffKey200
  have recent: "get_ok ?e \<and> now199 ?e - lastCleanupOr0 (storage (tracking\<lparr>storage := sweptStore\<rparr>))
                  < 86400000"
    by (simp add: lastCleanupOr0_def sweptStore_def)
  have stale: "get_ok ?e \<and> set_ok ?e
      \<and> 86400000 \<le> now199 ?e - lastCleanupOr0 (storage (tracking\<lparr>storage := staleStore\<rparr>))
      \<and> (\<exists>kv \<in> set (dailyData (storage (tracking\<lparr>storage := staleStore\<rparr>))).
            fst kv < cutoffKey ?e)"
    by (simp add: key lastCleanupOr0_def staleStore_def fiveSeconds_def)
  have empty: "get_ok ?e
      \<and> 86400000 \<le> now199 ?e
            - lastCleanupOr0 (storage (tracking\<lparr>storage := fiveSeconds\<lparr>dailyData := []\<rparr>\<rparr>))
      \<and> (\<forall>kv \<in> set (dailyData (storage (tracking\<lparr>storage := fiveSeconds\<lparr>dailyData := []\<rparr>\<rparr>))).
            \<not> fst kv < cutoffKey ?e)"
    by (simp add: day200_late lastCleanupOr0_def fiveSeconds_def)
  have zone: "offset205 ?e = offset204 ?e"
    by simp
  from cleanupOldData_contract [of ?e "tracking\<lparr>storage := sweptStore\<rparr>"] recent
  have one: "cleanupOldData ?e (tracking\<lparr>storage := sweptStore\<rparr>)
               = Inr (tracking\<lparr>storage := sweptStore\<rparr>)"
    by blast
  from cleanupOldData_contract [of ?e "tracking\<lparr>storage := staleStore\<rparr>"] stale
  have "cleanupOldData ?e (tracking\<lparr>storage := staleStore\<rparr>)
          = Inr ((tracking\<lparr>storage := staleStore\<rparr>)\<lparr>storage :=
                   (storage (tracking\<lparr>storage := staleStore\<rparr>))
                     \<lparr>dailyData := filter (\<lambda>kv. \<not> fst kv < cutoffKey ?e)
                        (dailyData (storage (tracking\<lparr>storage := staleStore\<rparr>))),
                      lastCleanup := Some (now220 ?e)\<rparr>\<rparr>)"
    by blast
  then have two: "cleanupOldData ?e (tracking\<lparr>storage := staleStore\<rparr>)
               = Inr (tracking\<lparr>storage := sweptStore\<rparr>)"
    by (simp add: key staleStore_def sweptStore_def fiveSeconds_def)
  from cleanupOldData_contract [of ?e "tracking\<lparr>storage := fiveSeconds\<lparr>dailyData := []\<rparr>\<rparr>"] empty
  have three: "cleanupOldData ?e (tracking\<lparr>storage := fiveSeconds\<lparr>dailyData := []\<rparr>\<rparr>)
               = Inr (tracking\<lparr>storage := fiveSeconds\<lparr>dailyData := []\<rparr>\<rparr>)"
    by blast
  from cleanupOldData_contract [of ?e tracking] zone
  have "cutoffTime ?e = now204 ?e - 90 * 86400000"
    by blast
  then have four: "cutoffTime ?e = day200 - 90 * 86400000"
    by simp
  from one two three key four show ?thesis
    by (intro conjI)
qed

text \<open>
  C3 as stated fails: the 24-hour gate is passed (the marker is unset, the clock is at
  day 200), no entry is old, and the marker is not set to the current time.
\<close>

theorem marker_not_updated_counterexample:
  "86400000 \<le> now199 (envAt day200) - lastCleanupOr0 (storage tracking)
   \<and> cleanupOldData (envAt day200) tracking = Inr tracking
   \<and> lastCleanup (storage tracking) \<noteq> Some (now220 (envAt day200))"
  by (simp add: cleanupOldData_def day200_late lastCleanupOr0_def tracking_def Let_def)

text \<open>
  The comment of line 198, "only cleanup once per day", holds of the sweeps that remove
  something: such a sweep sets the marker, and for the next 24 hours every sweep returns
  at the gate. A sweep that finds nothing old writes nothing, and the next one looks
  again.
\<close>

lemma sweep_once_a_day:
  assumes "cleanupOldData e s = Inr s'" and "s' \<noteq> s"
    and "get_ok e'" and "now199 e' - now220 e < 86400000"
  shows "lastCleanup (storage s') = Some (now220 e) \<and> cleanupOldData e' s' = Inr s'"
proof -
  from assms(1,2) have "lastCleanup (storage s') = Some (now220 e)"
    by (auto simp: cleanupOldData_def removeOld_eq Let_def split: if_splits)
  with assms(3,4) show ?thesis
    by (simp add: cleanupOldData_def lastCleanupOr0_def Let_def)
qed

lemma cleanupOldData_keeps:
  assumes "cleanupOldData e s = Inr s'"
  shows "activityData (storage s') = activityData (storage s)
         \<and> currentDomain s' = currentDomain s \<and> sessionStartTime s' = sessionStartTime s
         \<and> prototypeLastVisit s' = prototypeLastVisit s"
  using assms
  by (auto simp: cleanupOldData_def removeOld_eq Let_def split: if_splits)

text \<open>
  C10. A sweep that returns leaves \<^verbatim>\<open>activityData\<close> as it was, old
  \<^verbatim>\<open>dailyBreakdown\<close> entries included, and leaves the four session variables alone; what
  it can change is \<^verbatim>\<open>dailyData\<close> and \<^verbatim>\<open>lastCleanup\<close>. A sweep that is rejected
  changes nothing, so \<^verbatim>\<open>activityData\<close> is the same after every sweep.
\<close>

theorem cleanupOldData_frame:
  "(cleanupOldData e s = Inr s' \<longrightarrow>
      activityData (storage s') = activityData (storage s)
      \<and> currentTabId s' = currentTabId s \<and> currentDomain s' = currentDomain s
      \<and> sessionStartTime s' = sessionStartTime s \<and> isWindowFocused s' = isWindowFocused s)
   \<and> activityData (storage (step s (e, Cleanup))) = activityData (storage s)"
  by (auto simp: cleanupOldData_def removeOld_eq Let_def split: if_splits sum.splits)

theorem cleanupOldData_frame_witness:
  "cleanupOldData (envAt day200) (tracking\<lparr>storage := staleStore\<rparr>)
     = Inr (tracking\<lparr>storage := sweptStore\<rparr>)
   \<and> dailyData sweptStore \<noteq> dailyData staleStore
   \<and> activityData (storage (tracking\<lparr>storage := sweptStore\<rparr>))
     = activityData (storage (tracking\<lparr>storage := staleStore\<rparr>))"
proof -
  have swept: "cleanupOldData (envAt day200) (tracking\<lparr>storage := staleStore\<rparr>)
     = Inr (tracking\<lparr>storage := sweptStore\<rparr>)"
    by (simp add: cleanupOldData_def cutoffKey200 lastCleanupOr0_def sweptStore_def
        staleStore_def fiveSeconds_def tracking_def Let_def)
  from cleanupOldData_frame [of "envAt day200" "tracking\<lparr>storage := staleStore\<rparr>"
      "tracking\<lparr>storage := sweptStore\<rparr>"] swept
  show ?thesis
    by (simp add: sweptStore_def staleStore_def fiveSeconds_def)
qed

subsection \<open>The session variables along a run\<close>

lemma saveCurrentSession_session:
  assumes "saveCurrentSession e s = Inr s' \<or> saveCurrentSession e s = Inl (err, s')"
  shows "currentTabId s' = currentTabId s \<and> currentDomain s' = currentDomain s
         \<and> sessionStartTime s' = sessionStartTime s \<and> isWindowFocused s' = isWindowFocused s"
  using assms saveCurrentSession_Inr [of e s s'] saveCurrentSession_Inl [of e s err s']
  by auto

lemma started_has_domain_step:
  assumes "started_has_domain s"
  shows "started_has_domain (step s x)"
proof -
  obtain e ev where x: "x = (e, ev)" by (cases x)
  have flushed: "started_has_domain s'"
    if "saveCurrentSession e s = Inr s' \<or> saveCurrentSession e s = Inl (err, s')" for s' err
    using saveCurrentSession_session [OF that] assms by (simp add: started_has_domain_def)
  show ?thesis
  proof (cases ev)
    case (TabActivated tabId tabResult)
    then show ?thesis using x flushed
      by (auto simp: onActivated_def startTracking_def resetSession_def started_has_domain_def
          truthy_str_def split: sum.splits option.splits)
  next
    case (TabUpdated tabId changeUrl)
    then show ?thesis using assms x flushed
      by (auto simp: onUpdated_def startTracking_def resetSession_def started_has_domain_def
          truthy_str_def split: sum.splits option.splits)
  next
    case (FocusChanged windowId tabsResult)
    then show ?thesis using assms x flushed
      by (auto simp: onFocusChanged_def startTracking_def started_has_domain_def
          truthy_str_def Let_def split: sum.splits option.splits list.splits)
  next
    case (Alarm name)
    then show ?thesis using assms x flushed
      by (auto simp: onAlarm_def started_has_domain_def Let_def split: sum.splits)
  next
    case (ProcessStart tabsResult)
    then show ?thesis using assms x
      by (auto simp: onStartup_def startTracking_def started_has_domain_def
          truthy_str_def split: option.splits list.splits)
  next
    case Cleanup
    then show ?thesis using assms x
      by (auto simp: started_has_domain_def dest!: cleanupOldData_keeps split: sum.splits)
  qed
qed

lemma started_has_domain_run:
  "started_has_domain s \<Longrightarrow> started_has_domain (foldl step s evs)"
  by (induction evs arbitrary: s) (simp_all add: started_has_domain_step)

text \<open>
  C4, as the code has it. In every state reached from the initial one by any events,
  a set \<^verbatim>\<open>sessionStartTime\<close> comes with a set, non-empty \<^verbatim>\<open>currentDomain\<close>. The
  converse is not an invariant: the focus-lost listener unsets the start time only and
  keeps the domain.
\<close>

theorem started_session_has_domain:
  "sessionStartTime (run evs initial) \<noteq> None \<longrightarrow> truthy_str (currentDomain (run evs initial))"
proof -
  have "started_has_domain initial"
    by (simp add: started_has_domain_def initial_def)
  then have "started_has_domain (run evs initial)"
    unfolding run_def by (rule started_has_domain_run)
  then show ?thesis by (simp add: started_has_domain_def)
qed

theorem started_session_has_domain_witness:
  "sessionStartTime (run [(envAt 1000, ProcessStart (Some [exampleTab]))] initial) \<noteq> None
   \<and> truthy_str (currentDomain (run [(envAt 1000, ProcessStart (Some [exampleTab]))] initial))"
  using started_session_has_domain [of "[(envAt 1000, ProcessStart (Some [exampleTab]))]"]
  by (simp add: run_def startup_tracking tracking_def)

text \<open>
  C4 as stated fails: the worker starts on example.com and the window loses focus; the
  domain is still set and the start time is not.
\<close>

theorem domain_without_start_counterexample:
  "currentDomain (run pauseRun initial) = Some ''example.com''
   \<and> sessionStartTime (run pauseRun initial) = None"
proof -
  have paused: "run pauseRun initial
      = (tracking\<lparr>storage := fiveSeconds\<rparr>)\<lparr>isWindowFocused := False, sessionStartTime := None\<rparr>"
    by (simp add: run_def pauseRun_def startup_tracking onFocusChanged_def tracking_flush)
  show ?thesis
    unfolding paused by (simp add: tracking_def)
qed

subsection \<open>What the flush writes\<close>

lemma recordSession_activityData:
  assumes "recordSession e plv d secs K st = Inr st'"
  shows "activityData st' = activityData (upsert e d secs K st)"
    and "lastCleanup st' = lastCleanup st"
  using assms
  by (auto simp: recordSession_def upsert_def Let_def split: if_splits option.splits)

lemma recordSession_dailyData:
  assumes "recordSession e plv d secs K st = Inr st'"
  shows "\<exists>domains1. (domains1 = domains (dayEntry st K)
                       \<or> (\<exists>v. domains1 = AList.update d v (domains (dayEntry st K))))
           \<and> dailyData st' = AList.update K
                \<lparr>dayTotalTime = dayTotalTime (dayEntry st K) + secs, domains = domains1\<rparr>
                (dailyData st)"
  using assms
  by (auto simp: recordSession_def addDomainSeconds_def Let_def
      split: if_splits option.splits)

text \<open>
  A flush that records on a store with plain names has a host name that is no member of
  \<^verbatim>\<open>Object.prototype\<close>: such a name has no entry, and without one the flush throws.
\<close>

lemma recordSession_name:
  assumes "recordSession e plv d secs K st = Inr st'" and "plainKeys st"
  shows "d \<notin> set objectPrototypeNames"
proof
  assume member: "d \<in> set objectPrototypeNames"
  with assms(2) have "d \<notin> fst ` set (activityData st)"
    by (auto simp: plainKeys_def plainNames_def)
  then have "map_of (activityData st) d = None"
    by (simp add: map_of_eq_None_iff)
  with member have "recordSession e plv d secs K st = Inl TypeError"
    by (simp add: recordSession_inherited inheritedTruthy_def)
  with assms(1) show False by simp
qed

lemma recordSession_upsert:
  assumes "recordSession e None d secs K st = Inr st'" and "plainKeys st"
  shows "st' = upsert e d secs K st"
proof -
  from assms have "\<not> inheritedTruthy None d"
    using recordSession_name [of e None d secs K st st']
    by (simp add: inheritedTruthy_def truthy_num_def)
  then have "recordSession e None d secs K st = Inr (upsert e d secs K st)"
    by (rule recordSession_plain)
  with assms(1) show ?thesis by simp
qed

lemma saveCurrentSession_storage:
  assumes "saveCurrentSession e s = Inr s' \<or> saveCurrentSession e s = Inl (err, s')"
  shows "storage s' = storage s
         \<or> (\<exists>d secs. recordSession e (prototypeLastVisit s) d secs (getDateKey (now60 e))
                         (storage s) = Inr (storage s'))"
  using assms saveCurrentSession_Inr [of e s s'] saveCurrentSession_Inl [of e s err s']
  by auto

lemma listener_storage:
  assumes "ev \<noteq> Cleanup"
  shows "storage (step s (e, ev)) = storage s
         \<or> (\<exists>d secs. recordSession e (prototypeLastVisit s) d secs (getDateKey (now60 e))
                         (storage s) = Inr (storage (step s (e, ev))))"
proof -
  have flushed: "storage s' = storage s
         \<or> (\<exists>d secs. recordSession e (prototypeLastVisit s) d secs (getDateKey (now60 e))
                         (storage s) = Inr (storage s'))"
    if "saveCurrentSession e s = Inr s' \<or> saveCurrentSession e s = Inl (err, s')" for s' err
    using that by (rule saveCurrentSession_storage)
  show ?thesis
  proof (cases ev)
    case (TabActivated tabId tabResult)
    then show ?thesis
      using flushed
      by (auto simp: onActivated_def startTracking_def resetSession_def
          split: sum.splits option.splits)
  next
    case (TabUpdated tabId changeUrl)
    then show ?thesis
      using flushed
      by (auto simp: onUpdated_def startTracking_def resetSession_def
          split: sum.splits option.splits)
  next
    case (FocusChanged windowId tabsResult)
    then show ?thesis
      using flushed
      by (auto simp: onFocusChanged_def startTracking_def Let_def
          split: sum.splits option.splits list.splits)
  next
    case (Alarm name)
    then show ?thesis
      using flushed
      by (auto simp: onAlarm_def Let_def split: sum.splits)
  next
    case (ProcessStart tabsResult)
    then show ?thesis
      by (auto simp: onStartup_def startTracking_def split: option.splits list.splits)
  next
    case Cleanup
    with assms show ?thesis by simp
  qed
qed

lemma cleanupOldData_storage:
  assumes "cleanupOldData e s = Inr s'"
  shows "storage s' = storage s
         \<or> (\<exists>x. storage s' = (storage s)
               \<lparr>dailyData := filter (\<lambda>kv. \<not> fst kv < cutoffKey e) (dailyData (storage s)),
                lastCleanup := x\<rparr>)"
  using assms by (auto simp: cleanupOldData_def removeOld_eq Let_def split: if_splits)

subsection \<open>What the worker leaves on Object.prototype\<close>

lemma step_prototype:
  "prototypeLastVisit (step s x) = prototypeLastVisit s
   \<or> (\<exists>t. prototypeLastVisit (step s x) = Some t)"
proof -
  obtain e ev where x: "x = (e, ev)" by (cases x)
  have flushed: "prototypeLastVisit s' = prototypeLastVisit s \<or> (\<exists>t. prototypeLastVisit s' = Some t)"
    if "saveCurrentSession e s = Inr s' \<or> saveCurrentSession e s = Inl (err, s')" for s' err
    using that saveCurrentSession_Inr [of e s s'] saveCurrentSession_Inl [of e s err s']
    by auto
  show ?thesis
  proof (cases ev)
    case (TabActivated tabId tabResult)
    then show ?thesis
      using x flushed
      by (auto simp: onActivated_def startTracking_def resetSession_def
          split: sum.splits option.splits)
  next
    case (TabUpdated tabId changeUrl)
    then show ?thesis
      using x flushed
      by (auto simp: onUpdated_def startTracking_def resetSession_def
          split: sum.splits option.splits)
  next
    case (FocusChanged windowId tabsResult)
    then show ?thesis
      using x flushed
      by (auto simp: onFocusChanged_def startTracking_def Let_def
          split: sum.splits option.splits list.splits)
  next
    case (Alarm name)
    then show ?thesis
      using x flushed
      by (auto simp: onAlarm_def Let_def split: sum.splits)
  next
    case (ProcessStart tabsResult)
    then show ?thesis
      using x
      by (auto simp: onStartup_def startTracking_def split: option.splits list.splits)
  next
    case Cleanup
    then show ?thesis
      using x by (auto dest!: cleanupOldData_keeps split: sum.splits)
  qed
qed

text \<open>Nothing in the worker removes \<^verbatim>\<open>Object.prototype.lastVisit\<close>.\<close>

lemma prototype_stays:
  "prototypeLastVisit (foldl step s evs) = None \<Longrightarrow> prototypeLastVisit s = None"
proof (induction evs arbitrary: s)
  case Nil
  then show ?case by simp
next
  case (Cons x evs)
  then have "prototypeLastVisit (step s x) = None" by simp
  with step_prototype [of s x] show ?case by auto
qed

subsection \<open>Plain names\<close>

lemma plainKeys_record:
  assumes rec: "recordSession e plv d secs K st = Inr st'" and plain: "plainKeys st"
  shows "plainKeys st'"
proof -
  have name: "d \<notin> set objectPrototypeNames"
    using rec plain by (rule recordSession_name)
  have "fst ` set (activityData st') = insert d (fst ` set (activityData st))"
    using recordSession_activityData(1) [OF rec] by (simp add: upsert_def Let_def keys_update)
  with name plain have activity: "\<forall>x \<in> fst ` set (activityData st'). x \<notin> set objectPrototypeNames"
    by (auto simp: plainKeys_def plainNames_def)
  from recordSession_dailyData [OF rec] obtain domains1
    where doms: "domains1 = domains (dayEntry st K)
                 \<or> (\<exists>v. domains1 = AList.update d v (domains (dayEntry st K)))"
      and daily: "dailyData st' = AList.update K
                \<lparr>dayTotalTime = dayTotalTime (dayEntry st K) + secs, domains = domains1\<rparr>
                (dailyData st)"
    by blast
  have old: "\<forall>x \<in> fst ` set (domains (dayEntry st K)). x \<notin> set objectPrototypeNames"
  proof (cases "map_of (dailyData st) K")
    case None
    then show ?thesis by (simp add: dayEntry_def)
  next
    case (Some y)
    then have "(K, y) \<in> set (dailyData st)" by (rule map_of_SomeD)
    with plain Some show ?thesis
      by (force simp: plainKeys_def plainNames_def dayEntry_def)
  qed
  have "fst ` set domains1 \<subseteq> insert d (fst ` set (domains (dayEntry st K)))"
  proof (cases "domains1 = domains (dayEntry st K)")
    case True
    then show ?thesis by blast
  next
    case False
    with doms obtain v where "domains1 = AList.update d v (domains (dayEntry st K))"
      by blast
    then show ?thesis by (simp only: keys_update)
  qed
  with old name have new: "\<forall>x \<in> fst ` set domains1. x \<notin> set objectPrototypeNames"
    by blast
  have "\<forall>day \<in> set (dailyData st').
          \<forall>x \<in> fst ` set (domains (snd day)). x \<notin> set objectPrototypeNames"
  proof
    fix day
    assume "day \<in> set (dailyData st')"
    with daily set_update_subset [of K _ "dailyData st"]
    have "day = (K, \<lparr>dayTotalTime = dayTotalTime (dayEntry st K) + secs, domains = domains1\<rparr>)
          \<or> day \<in> set (dailyData st)"
      by auto
    with new plain show "\<forall>x \<in> fst ` set (domains (snd day)). x \<notin> set objectPrototypeNames"
      by (auto simp: plainKeys_def plainNames_def)
  qed
  with activity show ?thesis
    by (simp add: plainKeys_def plainNames_def)
qed

lemma plainKeys_step:
  assumes "plainKeys (storage s)"
  shows "plainKeys (storage (step s x))"
proof -
  obtain e ev where x: "x = (e, ev)" by (cases x)
  show ?thesis
  proof (cases "ev = Cleanup")
    case True
    show ?thesis
    proof (cases "cleanupOldData e s")
      case (Inl err)
      with True x assms show ?thesis by simp
    next
      case (Inr s')
      from cleanupOldData_storage [OF Inr] assms have "plainKeys (storage s')"
        by (auto simp: plainKeys_def plainNames_def)
      with True x Inr show ?thesis by simp
    qed
  next
    case False
    from listener_storage [OF False, of s e] assms x show ?thesis
      by (auto simp: plainKeys_record)
  qed
qed

text \<open>
  No store reached from the empty one has a host name that is the name of a member of
  \<^verbatim>\<open>Object.prototype\<close>: the flush of such a name throws before it writes.
\<close>

lemma plainKeys_run: "plainKeys (storage (run evs initial))"
proof -
  have "plainKeys (storage s) \<Longrightarrow> plainKeys (storage (foldl step s evs))" for s
    by (induction evs arbitrary: s) (simp_all add: plainKeys_step)
  moreover have "plainKeys (storage initial)"
    by (simp add: plainKeys_def plainNames_def initial_def)
  ultimately show ?thesis by (simp add: run_def)
qed

subsection \<open>The sums and the pairs of the two maps\<close>

lemma domainSumsOk_upsert:
  assumes "domainSumsOk st"
  shows "domainSumsOk (upsert e d0 secs K st)"
  using assms
  by (auto simp: domainSumsOk_def upsert_def domainEntry_def orZero_def Let_def update_conv'
      sum_snd_update split: option.splits if_splits)

lemma domainSumsOk_record:
  assumes "recordSession e plv d secs K st = Inr st'" and "domainSumsOk st"
  shows "domainSumsOk st'"
proof -
  have "domainSumsOk (upsert e d secs K st)"
    using assms(2) by (rule domainSumsOk_upsert)
  then show ?thesis
    unfolding domainSumsOk_def recordSession_activityData(1) [OF assms(1)] .
qed

lemma daySumsOk_upsert:
  assumes "daySumsOk st"
  shows "daySumsOk (upsert e d0 secs K st)"
  using assms
  by (auto simp: daySumsOk_def upsert_def dayEntry_def orZero_def Let_def update_conv'
      sum_snd_update split: option.splits if_splits)

lemma pairsUpTo_upsert:
  assumes inv: "pairsUpTo C st" and clock: "\<forall>c \<in> C. \<not> K < c"
  shows "pairsUpTo C (upsert e d0 secs K st)"
proof -
  from inv have fwd: "\<And>date d v. domainSecondsAt st date d = Some v \<Longrightarrow> breakdownAt st d date = Some v"
    and bwd: "\<And>d date v. breakdownAt st d date = Some v \<Longrightarrow>
          domainSecondsAt st date d = Some v \<or> (map_of (dailyData st) date = None \<and> (\<exists>c \<in> C. date < c))"
    by (auto simp: pairsUpTo_def dayPairsMatch_def)
  have same: "orZero (domainSecondsAt st K d0) = orZero (breakdownAt st d0 K)"
  proof (cases "breakdownAt st d0 K")
    case None
    then have "domainSecondsAt st K d0 = None"
      using fwd [of K d0] by (cases "domainSecondsAt st K d0") auto
    with None show ?thesis by simp
  next
    case (Some v)
    then have "domainSecondsAt st K d0 = Some v"
      using bwd [of d0 K v] clock by auto
    with Some show ?thesis by simp
  qed
  let ?st' = "upsert e d0 secs K st"
  show ?thesis
    unfolding pairsUpTo_def dayPairsMatch_def
  proof (intro conjI allI impI)
    fix date d v
    assume "domainSecondsAt ?st' date d = Some v"
    then show "breakdownAt ?st' d date = Some v"
      using fwd [of date d v]
      by (auto simp: upsert_breakdownAt upsert_domainSecondsAt same split: if_splits)
  next
    fix d date v
    assume new: "breakdownAt ?st' d date = Some v"
    show "domainSecondsAt ?st' date d = Some v
          \<or> (map_of (dailyData ?st') date = None \<and> (\<exists>c \<in> C. date < c))"
    proof (cases "d = d0 \<and> date = K")
      case True
      with new show ?thesis
        by (simp add: upsert_breakdownAt upsert_domainSecondsAt same)
    next
      case False
      with new have "breakdownAt st d date = Some v"
        by (simp add: upsert_breakdownAt)
      then have "domainSecondsAt st date d = Some v
          \<or> (map_of (dailyData st) date = None \<and> (\<exists>c \<in> C. date < c))"
        by (rule bwd)
      with False clock show ?thesis
        by (auto simp: upsert_domainSecondsAt upsert_dailyData_None)
    qed
  qed
qed

lemma pairsUpTo_mono: "pairsUpTo C st \<Longrightarrow> C \<subseteq> C' \<Longrightarrow> pairsUpTo C' st"
  unfolding pairsUpTo_def by blast

lemma pairsUpTo_sweep:
  assumes "pairsUpTo C st"
  shows "pairsUpTo (insert c C)
           (st\<lparr>dailyData := filter (\<lambda>kv. \<not> fst kv < c) (dailyData st), lastCleanup := x\<rparr>)"
proof -
  let ?st' = "st\<lparr>dailyData := filter (\<lambda>kv. \<not> fst kv < c) (dailyData st), lastCleanup := x\<rparr>"
  have kept: "map_of (dailyData ?st') date = (if date < c then None else map_of (dailyData st) date)"
    for date
    using map_of_filter_key [of "\<lambda>k. \<not> k < c" "dailyData st" date] by simp
  have day: "domainSecondsAt ?st' date d = (if date < c then None else domainSecondsAt st date d)"
    for date d
    unfolding domainSecondsAt_def kept by simp
  have dom: "breakdownAt ?st' d date = breakdownAt st d date" for d date
    by (simp add: breakdownAt_def)
  show ?thesis
    using assms unfolding pairsUpTo_def dayPairsMatch_def day dom kept
    by (auto split: if_splits)
qed

lemma sums_sweep:
  "domainSumsOk st \<Longrightarrow> domainSumsOk (st\<lparr>dailyData := dd, lastCleanup := x\<rparr>)"
  "daySumsOk st \<Longrightarrow>
     daySumsOk (st\<lparr>dailyData := filter (\<lambda>kv. \<not> fst kv < c) (dailyData st), lastCleanup := x\<rparr>)"
  using map_of_filter_key [of "\<lambda>k. \<not> k < c" "dailyData st"]
  by (auto simp: domainSumsOk_def daySumsOk_def split: if_splits)

lemma storeInv_upsert:
  "storeInv C st \<Longrightarrow> \<forall>c \<in> C. \<not> K < c \<Longrightarrow> storeInv C (upsert e d secs K st)"
  by (simp add: storeInv_def domainSumsOk_upsert daySumsOk_upsert pairsUpTo_upsert)

lemma listener_upsert:
  assumes "ev \<noteq> Cleanup" and "plainKeys (storage s)" and "prototypeLastVisit s = None"
  shows "storage (step s (e, ev)) = storage s
         \<or> (\<exists>d secs. storage (step s (e, ev))
                        = upsert e d secs (getDateKey (now60 e)) (storage s))"
proof -
  from listener_storage [OF assms(1), of s e] assms(3)
  consider "storage (step s (e, ev)) = storage s"
    | d secs where "recordSession e None d secs (getDateKey (now60 e)) (storage s)
                      = Inr (storage (step s (e, ev)))"
    by auto
  then show ?thesis
  proof cases
    case 1
    then show ?thesis by simp
  next
    case 2
    from recordSession_upsert [OF 2 assms(2)] show ?thesis by blast
  qed
qed

lemma storeInv_step:
  assumes inv: "storeInv C (storage s)" and plain: "plainKeys (storage s)"
    and clean: "prototypeLastVisit s = None"
    and clock: "\<forall>c \<in> C. \<not> getDateKey (now60 e) < c"
  shows "storeInv (if ev = Cleanup then insert (cutoffKey e) C else C)
           (storage (step s (e, ev)))"
proof (cases "ev = Cleanup")
  case True
  let ?C' = "insert (cutoffKey e) C"
  have grown: "storeInv ?C' (storage s)"
    using inv pairsUpTo_mono [of C "storage s" ?C'] by (auto simp: storeInv_def)
  show ?thesis
  proof (cases "cleanupOldData e s")
    case (Inl err)
    with True grown show ?thesis by simp
  next
    case (Inr s')
    from cleanupOldData_storage [OF Inr] grown inv have "storeInv ?C' (storage s')"
      by (auto simp: storeInv_def sums_sweep pairsUpTo_sweep)
    with True Inr show ?thesis by simp
  qed
next
  case False
  from listener_upsert [OF False plain clean, of e] inv clock
  have "storeInv C (storage (step s (e, ev)))"
    by (auto simp: storeInv_upsert)
  with False show ?thesis by simp
qed

lemma cutoffKeys_Cons:
  "cutoffKeys ((e, ev) # evs)
     = (if ev = Cleanup then insert (cutoffKey e) (cutoffKeys evs) else cutoffKeys evs)"
  by (simp add: cutoffKeys_def)

lemma storeInv_run:
  assumes "storeInv C (storage s)" and "plainKeys (storage s)"
    and "prototypeLastVisit (foldl step s evs) = None" and "clockOk evs"
    and "\<forall>x \<in> set evs. \<forall>c \<in> C. \<not> getDateKey (now60 (fst x)) < c"
  shows "storeInv (C \<union> cutoffKeys evs) (storage (foldl step s evs))"
  using assms
proof (induction evs arbitrary: s C)
  case Nil
  then show ?case by (simp add: cutoffKeys_def)
next
  case (Cons x evs)
  obtain e ev where x: "x = (e, ev)" by (cases x)
  let ?C' = "if ev = Cleanup then insert (cutoffKey e) C else C"
  have after: "prototypeLastVisit (foldl step (step s (e, ev)) evs) = None"
    using Cons.prems(3) x by simp
  then have "prototypeLastVisit (step s (e, ev)) = None"
    by (rule prototype_stays)
  with step_prototype [of s "(e, ev)"] have clean: "prototypeLastVisit s = None"
    by auto
  have here: "storeInv ?C' (storage (step s (e, ev)))"
    using Cons.prems(1,2,5) x clean by (intro storeInv_step) auto
  have plain: "plainKeys (storage (step s (e, ev)))"
    using Cons.prems(2) by (rule plainKeys_step)
  have later: "\<forall>y \<in> set evs. \<forall>c \<in> ?C'. \<not> getDateKey (now60 (fst y)) < c"
    using Cons.prems(4,5) x by auto
  have "clockOk evs"
    using Cons.prems(4) x by simp
  from Cons.IH [OF here plain after this later]
  have "storeInv (?C' \<union> cutoffKeys evs) (storage (foldl step (step s (e, ev)) evs))" .
  moreover have "?C' \<union> cutoffKeys evs = C \<union> cutoffKeys ((e, ev) # evs)"
    by (simp add: cutoffKeys_Cons)
  ultimately show ?case
    using x by simp
qed

lemma domainSumsOk_step:
  assumes "domainSumsOk (storage s)"
  shows "domainSumsOk (storage (step s x))"
proof -
  obtain e ev where x: "x = (e, ev)" by (cases x)
  show ?thesis
  proof (cases "ev = Cleanup")
    case True
    show ?thesis
    proof (cases "cleanupOldData e s")
      case (Inl err)
      with True x assms show ?thesis by simp
    next
      case (Inr s')
      from cleanupOldData_storage [OF Inr] assms
      have "domainSumsOk (storage s')"
        by (auto simp: sums_sweep)
      with True x Inr show ?thesis by simp
    qed
  next
    case False
    from listener_storage [OF False, of s e] assms x show ?thesis
      by (auto simp: domainSumsOk_record)
  qed
qed

lemma domainSumsOk_run:
  "domainSumsOk (storage s) \<Longrightarrow> domainSumsOk (storage (foldl step s evs))"
  by (induction evs arbitrary: s) (simp_all add: domainSumsOk_step)

text \<open>
  C5, as the code has it. In every store reached from the empty one by the listeners and
  the sweep, the \<^verbatim>\<open>dailyBreakdown\<close> values of every domain sum to its
  \<^verbatim>\<open>totalTime\<close>. As long as the worker has not written to \<^verbatim>\<open>Object.prototype\<close> (no
  flush has run on the host name \<^verbatim>\<open>__proto__\<close>), the \<^verbatim>\<open>domains\<close> values of every
  date sum to its \<^verbatim>\<open>totalTime\<close>; and when, besides, the clock of the run does not fall
  back behind a sweep's cutoff, every domain/date pair present in \<^verbatim>\<open>dailyData\<close> has
  the same seconds in \<^verbatim>\<open>activityData\<close>, and every pair present in \<^verbatim>\<open>activityData\<close>
  has the same seconds in \<^verbatim>\<open>dailyData\<close>, unless the store has no entry for that date
  and the date is below the cutoff key of a sweep of the run. In a run without a sweep
  the pairs of the two maps are the same.
\<close>

theorem store_invariants:
  "domainSumsOk (storage (run evs initial))
   \<and> (prototypeLastVisit (run evs initial) = None \<longrightarrow>
        daySumsOk (storage (run evs initial))
        \<and> (clockOk evs \<longrightarrow> pairsUpTo (cutoffKeys evs) (storage (run evs initial))))"
proof -
  have sums: "domainSumsOk (storage (run evs initial))"
    unfolding run_def
    by (rule domainSumsOk_run) (simp add: domainSumsOk_def initial_def)
  have start: "storeInv {} (storage initial)"
    by (simp add: storeInv_def domainSumsOk_def daySumsOk_def pairsUpTo_def dayPairsMatch_def
        breakdownAt_def domainSecondsAt_def initial_def)
  have plain: "plainKeys (storage initial)"
    by (simp add: plainKeys_def plainNames_def initial_def)
  have pairs: "pairsUpTo (cutoffKeys evs) (storage (run evs initial))"
    if "prototypeLastVisit (run evs initial) = None" and "clockOk evs"
    using storeInv_run [OF start plain, of evs] that
    by (simp add: run_def storeInv_def)
  have day: "daySumsOk (storage (run evs initial))"
    if clean: "prototypeLastVisit (run evs initial) = None"
  proof -
    have "prototypeLastVisit (foldl step s evs) = None \<Longrightarrow> plainKeys (storage s)
            \<Longrightarrow> daySumsOk (storage s) \<Longrightarrow> daySumsOk (storage (foldl step s evs))" for s
    proof (induction evs arbitrary: s)
      case Nil
      then show ?case by simp
    next
      case (Cons x evs)
      obtain e ev where x: "x = (e, ev)" by (cases x)
      have after: "prototypeLastVisit (foldl step (step s x) evs) = None"
        using Cons.prems(1) by simp
      then have "prototypeLastVisit (step s x) = None"
        by (rule prototype_stays)
      with step_prototype [of s x] have now: "prototypeLastVisit s = None"
        by auto
      have "daySumsOk (storage (step s x))"
      proof (cases "ev = Cleanup")
        case True
        show ?thesis
        proof (cases "cleanupOldData e s")
          case (Inl err)
          with True x Cons.prems(3) show ?thesis by simp
        next
          case (Inr s')
          from cleanupOldData_storage [OF Inr] Cons.prems(3) have "daySumsOk (storage s')"
            by (auto simp: sums_sweep)
          with True x Inr show ?thesis by simp
        qed
      next
        case False
        from listener_upsert [OF False Cons.prems(2) now, of e] Cons.prems(3) x
        show ?thesis
          by (auto simp: daySumsOk_upsert)
      qed
      moreover have "plainKeys (storage (step s x))"
        using Cons.prems(2) by (rule plainKeys_step)
      ultimately show ?case
        using Cons.IH [OF after] by simp
    qed
    from this [of initial] clean plain show ?thesis
      by (simp add: run_def daySumsOk_def initial_def)
  qed
  from sums pairs day show ?thesis by blast
qed

lemma sweepRun_state:
  "run sweepRun initial = tracking\<lparr>storage := sweptStore, sessionStartTime := Some 6000\<rparr>"
proof -
  have alarm: "onAlarm (envAt 6000) ''saveActivity'' tracking
                 = tracking\<lparr>storage := fiveSeconds, sessionStartTime := Some 6000\<rparr>"
    by (simp add: onAlarm_def tracking_flush Let_def)
       (simp add: tracking_def truthy_str_def)
  have "cleanupOldData (envAt day200) (tracking\<lparr>storage := fiveSeconds, sessionStartTime := Some 6000\<rparr>)
          = Inr (tracking\<lparr>storage := sweptStore, sessionStartTime := Some 6000\<rparr>)"
    by (simp add: cleanupOldData_def cutoffKey200 day200_late lastCleanupOr0_def sweptStore_def
        fiveSeconds_def tracking_def Let_def)
  then show ?thesis
    by (simp add: run_def sweepRun_def startup_tracking alarm)
qed

lemma key200: "getDateKey 17280060000 = ''1970-07-20''"
  by code_simp

lemma key_day200: "getDateKey (day200 + 60000) = ''1970-07-20''"
  by (simp add: day200_def key200)

lemma longRun_prototype: "prototypeLastVisit (run longRun initial) = None"
proof -
  have "run longRun initial
          = onAlarm (envAt (day200 + 60000)) ''saveActivity'' (run sweepRun initial)"
    by (simp add: run_def longRun_def)
  moreover have "prototypeLastVisit (onAlarm e ''saveActivity'' s) = None"
    if "prototypeLastVisit s = None" and "currentDomain s = Some ''example.com''" for e s
    using that
    by (auto simp: onAlarm_def saveCurrentSession_def Let_def recordSession_plain
        split: option.splits sum.splits error.splits)
  ultimately show ?thesis
    by (simp add: sweepRun_state tracking_def)
qed

text \<open>
  The run with a sweep on day 200 and a flush one minute later keeps its clock and writes
  nothing to \<^verbatim>\<open>Object.prototype\<close>; the store it reaches has the properties, with the
  one cutoff key 1970-04-21.
\<close>

theorem store_invariants_witness:
  "clockOk longRun \<and> prototypeLastVisit (run longRun initial) = None
   \<and> cutoffKeys longRun = {''1970-04-21''}
   \<and> domainSumsOk (storage (run longRun initial)) \<and> daySumsOk (storage (run longRun initial))
   \<and> pairsUpTo {''1970-04-21''} (storage (run longRun initial))"
proof -
  have late: "cutoffKey (envAt day200) = ''1970-04-21''"
    by (rule cutoffKey200)
  have ok: "clockOk longRun"
    by (simp add: longRun_def sweepRun_def late key_day200)
  have keys: "cutoffKeys longRun = {''1970-04-21''}"
    by (simp add: cutoffKeys_def longRun_def sweepRun_def late)
  from store_invariants [of longRun] ok longRun_prototype keys show ?thesis by simp
qed

text \<open>
  C5 as stated fails: after the sweep of day 200 the pair (example.com, 1970-01-01) is
  still in the domain's breakdown with five seconds, and the day's entry is gone.
\<close>

theorem swept_pair_counterexample:
  "breakdownAt (storage (run sweepRun initial)) ''example.com'' ''1970-01-01'' = Some 5
   \<and> domainSecondsAt (storage (run sweepRun initial)) ''1970-01-01'' ''example.com'' = None"
  by (simp add: sweepRun_state sweptStore_def breakdownAt_def domainSecondsAt_def)

text \<open>
  Why the day sums need an untouched \<^verbatim>\<open>Object.prototype\<close>. In the sample run the
  flush of the host \<^verbatim>\<open>__proto__\<close> leaves \<^verbatim>\<open>Object.prototype.lastVisit = 9000\<close>; on
  the next day line 96 finds that number for the host \<^verbatim>\<open>lastVisit\<close>, and line 99 stores
  9005 seconds for a day whose total is 5.
\<close>

lemma key90005000: "getDateKey 90005000 = ''1970-01-02''"
  by code_simp

lemma polluted_day_sum:
  "prototypeLastVisit (run pollutedRun initial) = Some 9000
   \<and> dayTotalTimeOf (storage (run pollutedRun initial)) ''1970-01-02'' = 5
   \<and> domainSecondsAt (storage (run pollutedRun initial)) ''1970-01-02'' ''lastVisit'' = Some 9005
   \<and> \<not> daySumsOk (storage (run pollutedRun initial))"
proof -
  let ?visited = "\<lparr>activityData = [(''lastVisit'',
          \<lparr>totalTime = 5, visits = 1, lastVisit = 6000, dailyBreakdown = [(''1970-01-01'', 5)]\<rparr>)],
      dailyData = [(''1970-01-01'', \<lparr>dayTotalTime = 5, domains = [(''lastVisit'', 5)]\<rparr>)],
      lastCleanup = None\<rparr>"
  let ?s1 = "\<lparr>currentTabId = Some 13, currentDomain = Some ''lastVisit'',
       sessionStartTime = Some 1000, isWindowFocused = True,
       storage = \<lparr>activityData = [], dailyData = [], lastCleanup = None\<rparr>,
       prototypeLastVisit = None\<rparr>"
  let ?s2 = "\<lparr>currentTabId = Some 12, currentDomain = Some ''__proto__'',
       sessionStartTime = Some 6000, isWindowFocused = True,
       storage = ?visited, prototypeLastVisit = None\<rparr>"
  let ?s3 = "\<lparr>currentTabId = Some 12, currentDomain = Some ''__proto__'',
       sessionStartTime = Some 9000, isWindowFocused = True,
       storage = ?visited, prototypeLastVisit = Some 9000\<rparr>"
  let ?s4 = "\<lparr>currentTabId = Some 13, currentDomain = Some ''lastVisit'',
       sessionStartTime = Some 90000000, isWindowFocused = True,
       storage = ?visited, prototypeLastVisit = Some 9000\<rparr>"
  let ?final = "\<lparr>activityData = [(''lastVisit'',
          \<lparr>totalTime = 10, visits = 2, lastVisit = 90005000,
           dailyBreakdown = [(''1970-01-01'', 5), (''1970-01-02'', 5)]\<rparr>)],
      dailyData = [(''1970-01-01'', \<lparr>dayTotalTime = 5, domains = [(''lastVisit'', 5)]\<rparr>),
                   (''1970-01-02'', \<lparr>dayTotalTime = 5, domains = [(''lastVisit'', 9005)]\<rparr>)],
      lastCleanup = None\<rparr>"
  have one: "step initial (envAt 1000, ProcessStart (Some [lastVisitTab])) = ?s1"
    by (simp add: onStartup_def getDomainFromUrl_def lastVisitTab_def sampleURL_def
        startTracking_def initial_def)
  have two: "step ?s1 (envAt 6000, TabActivated 12 (Some protoTab)) = ?s2"
    by (simp add: onActivated_def saveCurrentSession_def recordSession_plain upsert_def
        domainEntry_def dayEntry_def orZero_def key6000 truthy_str_def truthy_num_def
        getDomainFromUrl_def protoTab_def sampleURL_def startTracking_def Let_def)
  have three: "step ?s2 (envAt 9000, Alarm ''saveActivity'') = ?s3"
    by (simp add: onAlarm_def saveCurrentSession_def recordSession_inherited
        truthy_str_def truthy_num_def Let_def)
  have four: "step ?s3 (envAt 90000000, FocusChanged 1 (Some [lastVisitTab])) = ?s4"
    by (simp add: onFocusChanged_def WINDOW_ID_NONE_def getDomainFromUrl_def lastVisitTab_def
        sampleURL_def startTracking_def Let_def)
  have five: "step ?s4 (envAt 90005000, Alarm ''saveActivity'')
                = ?s4\<lparr>storage := ?final, sessionStartTime := Some 90005000\<rparr>"
    by (simp add: onAlarm_def saveCurrentSession_def recordSession_def addDomainSeconds_def
        inheritedTruthy_def domainEntry_def dayEntry_def orZero_def key90005000
        truthy_str_def truthy_num_def Let_def)
  have "run pollutedRun initial = ?s4\<lparr>storage := ?final, sessionStartTime := Some 90005000\<rparr>"
    unfolding run_def pollutedRun_def foldl_Cons foldl_Nil one two three four five ..
  moreover have "\<not> daySumsOk ?final"
    unfolding daySumsOk_def
    by (auto intro!: exI [of _ "''1970-01-02''"])
  ultimately show ?thesis
    by (simp add: dayTotalTimeOf_def domainSecondsAt_def)
qed

subsection \<open>Distinct keys\<close>

lemma keysDistinct_record:
  assumes rec: "recordSession e plv d secs K st = Inr st'" and dist: "keysDistinct st"
  shows "keysDistinct st'"
proof -
  let ?ds0 = "domainEntry e st d"
  let ?dy0 = "dayEntry st K"
  have ds0: "distinct (map fst (dailyBreakdown ?ds0))"
  proof (cases "map_of (activityData st) d")
    case None
    then show ?thesis by (simp add: domainEntry_def)
  next
    case (Some x)
    then have "x \<in> snd ` set (activityData st)"
      by (metis map_of_SomeD snd_conv image_eqI)
    with dist have "distinct (map fst (dailyBreakdown x))"
      unfolding keysDistinct_def by blast
    with Some show ?thesis by (simp add: domainEntry_def)
  qed
  have dy0: "distinct (map fst (domains ?dy0))"
  proof (cases "map_of (dailyData st) K")
    case None
    then show ?thesis by (simp add: dayEntry_def)
  next
    case (Some y)
    then have "y \<in> snd ` set (dailyData st)"
      by (metis map_of_SomeD snd_conv image_eqI)
    with dist have "distinct (map fst (domains y))"
      unfolding keysDistinct_def by blast
    with Some show ?thesis by (simp add: dayEntry_def)
  qed
  let ?ds1 = "\<lparr>totalTime = totalTime ?ds0 + secs, visits = visits ?ds0 + 1, lastVisit = now79 e,
        dailyBreakdown = AList.update K (orZero (map_of (dailyBreakdown ?ds0) K) + secs)
           (dailyBreakdown ?ds0)\<rparr>"
  have activity: "activityData st' = AList.update d ?ds1 (activityData st)"
    using recordSession_activityData(1) [OF rec] by (simp add: upsert_def Let_def)
  from recordSession_dailyData [OF rec] obtain domains1
    where doms: "domains1 = domains ?dy0 \<or> (\<exists>v. domains1 = AList.update d v (domains ?dy0))"
      and daily: "dailyData st' = AList.update K
                \<lparr>dayTotalTime = dayTotalTime ?dy0 + secs, domains = domains1\<rparr> (dailyData st)"
    by blast
  from doms dy0 have new: "distinct (map fst domains1)"
    by (auto simp: distinct_update)
  have "\<forall>ds \<in> snd ` set (AList.update d ?ds1 (activityData st)).
          distinct (map fst (dailyBreakdown ds))"
    using dist ds0 by (intro all_snd_update) (simp_all add: keysDistinct_def distinct_update)
  moreover have "\<forall>dy \<in> snd ` set (AList.update K
            \<lparr>dayTotalTime = dayTotalTime ?dy0 + secs, domains = domains1\<rparr> (dailyData st)).
          distinct (map fst (domains dy))"
    using dist new by (intro all_snd_update) (simp_all add: keysDistinct_def)
  ultimately show ?thesis
    unfolding keysDistinct_def activity daily using dist
    by (simp add: keysDistinct_def distinct_update)
qed

lemma keysDistinct_sweep:
  assumes "keysDistinct st"
  shows "keysDistinct (st\<lparr>dailyData := filter P (dailyData st), lastCleanup := x\<rparr>)"
  using assms by (auto simp: keysDistinct_def distinct_map_filter)

lemma keysDistinct_step:
  assumes "keysDistinct (storage s)"
  shows "keysDistinct (storage (step s x))"
proof -
  obtain e ev where x: "x = (e, ev)" by (cases x)
  show ?thesis
  proof (cases "ev = Cleanup")
    case True
    show ?thesis
    proof (cases "cleanupOldData e s")
      case (Inl err)
      with True x assms show ?thesis by simp
    next
      case (Inr s')
      from cleanupOldData_storage [OF Inr] assms have "keysDistinct (storage s')"
        by (auto simp: keysDistinct_sweep)
      with True x Inr show ?thesis by simp
    qed
  next
    case False
    from listener_storage [OF False, of s e] assms x show ?thesis
      by (auto simp: keysDistinct_record)
  qed
qed

text \<open>
  The lists of every store reached from the empty one have distinct keys: they stand for
  JavaScript objects.
\<close>

lemma keysDistinct_run: "keysDistinct (storage (run evs initial))"
proof -
  have "keysDistinct (storage s) \<Longrightarrow> keysDistinct (storage (foldl step s evs))" for s
    by (induction evs arbitrary: s) (simp_all add: keysDistinct_step)
  moreover have "keysDistinct (storage initial)"
    by (simp add: keysDistinct_def initial_def)
  ultimately show ?thesis by (simp add: run_def)
qed

subsection \<open>The upsert\<close>

lemma upsert_visitsOf:
  "visitsOf (upsert e d0 secs K st) d = visitsOf st d + (if d = d0 then 1 else 0)"
  by (auto simp: visitsOf_def upsert_def domainEntry_def Let_def update_conv'
      split: option.splits)

lemma upsert_dayTotalTimeOf:
  "dayTotalTimeOf (upsert e d0 secs K st) date
     = dayTotalTimeOf st date + (if date = K then secs else 0)"
  by (auto simp: dayTotalTimeOf_def upsert_def dayEntry_def Let_def update_conv'
      split: option.splits)

lemma upsert_lastVisit:
  "\<exists>ds'. map_of (activityData (upsert e d0 secs K st)) d0 = Some ds'
          \<and> lastVisit ds' = now79 e"
  by (simp add: upsert_def Let_def update_conv')

lemma upsert_others:
  "d \<noteq> d0 \<Longrightarrow> map_of (activityData (upsert e d0 secs K st)) d = map_of (activityData st) d"
  "date \<noteq> K \<Longrightarrow> map_of (dailyData (upsert e d0 secs K st)) date = map_of (dailyData st) date"
  "lastCleanup (upsert e d0 secs K st) = lastCleanup st"
  by (simp_all add: upsert_def Let_def update_conv')

text \<open>
  What a flush writes for a host name that is not found on \<^verbatim>\<open>Object.prototype\<close>
  (window focused, domain and start time set, at least one whole second, the store
  answering): it adds the seconds to the domain's \<^verbatim>\<open>totalTime\<close>, adds 1 to its
  \<^verbatim>\<open>visits\<close>, sets its \<^verbatim>\<open>lastVisit\<close> to the current time and adds the seconds to its
  \<^verbatim>\<open>dailyBreakdown\<close> entry of the date key, each read as 0 when absent before; it adds
  the seconds to the day's \<^verbatim>\<open>totalTime\<close> and to the day's entry of the domain in the
  same way; every other entry of both maps, and \<^verbatim>\<open>lastCleanup\<close>, is as before.
\<close>

lemma plain_flush_upserts:
  assumes "isWindowFocused s" and "currentDomain s = Some d" and "d \<noteq> []"
    and "truthy_num (sessionStartTime s)" and "1 \<le> elapsedSeconds e s"
    and "get_ok e" and "set_ok e" and "\<not> inheritedTruthy (prototypeLastVisit s) d"
  shows "\<exists>s'. saveCurrentSession e s = Inr s' \<and>
     (let st = storage s; st' = storage s'; secs = elapsedSeconds e s;
          dateKey = getDateKey (now60 e)
      in totalTimeOf st' d = totalTimeOf st d + secs
       \<and> visitsOf st' d = visitsOf st d + 1
       \<and> (\<exists>ds'. map_of (activityData st') d = Some ds' \<and> lastVisit ds' = now79 e)
       \<and> breakdownAt st' d dateKey = Some (orZero (breakdownAt st d dateKey) + secs)
       \<and> dayTotalTimeOf st' dateKey = dayTotalTimeOf st dateKey + secs
       \<and> domainSecondsAt st' dateKey d = Some (orZero (domainSecondsAt st dateKey d) + secs)
       \<and> (\<forall>date. date \<noteq> dateKey \<longrightarrow> breakdownAt st' d date = breakdownAt st d date)
       \<and> (\<forall>d'. d' \<noteq> d \<longrightarrow> domainSecondsAt st' dateKey d' = domainSecondsAt st dateKey d')
       \<and> (\<forall>d'. d' \<noteq> d \<longrightarrow> map_of (activityData st') d' = map_of (activityData st) d')
       \<and> (\<forall>date. date \<noteq> dateKey \<longrightarrow> map_of (dailyData st') date = map_of (dailyData st) date)
       \<and> lastCleanup st' = lastCleanup st)"
proof -
  let ?st' = "upsert e d (elapsedSeconds e s) (getDateKey (now60 e)) (storage s)"
  have "saveCurrentSession e s = Inr (s\<lparr>storage := ?st'\<rparr>)"
    using assms
    by (auto simp: saveCurrentSession_def recordSession_plain truthy_str_def truthy_num_def
        elapsedSeconds_def Let_def split: option.splits)
  moreover have "\<exists>ds'. map_of (activityData ?st') d = Some ds' \<and> lastVisit ds' = now79 e"
    by (rule upsert_lastVisit)
  ultimately show ?thesis
    by (simp add: Let_def upsert_totalTimeOf upsert_visitsOf upsert_breakdownAt
        upsert_dayTotalTimeOf upsert_domainSecondsAt upsert_others)
qed

text \<open>
  C6 fails on the code. The worker is on the host \<^verbatim>\<open>constructor\<close> since time 1000, over
  an empty store, and five seconds later the session is flushed. By C6 the entry of the
  domain is created and updated. In the code line 67 reads
  \<^verbatim>\<open>activityData["constructor"]\<close>, finds the function inherited from
  \<^verbatim>\<open>Object.prototype\<close> and creates no entry; line 82 reads \<^verbatim>\<open>dailyBreakdown\<close> of that
  function and throws. Nothing is written, and the listener that awaited the flush stops:
  after the user has activated the tab of example.com the session is still the one of
  \<^verbatim>\<open>constructor\<close>.
\<close>

theorem constructor_flush_throws:
  "recordSession (envAt 6000) None ''constructor'' 5 ''1970-01-01'' (storage initial)
     = Inl TypeError
   \<and> run [(envAt 1000, ProcessStart (Some [constructorTab]))] initial
     = tracking\<lparr>currentTabId := Some 11, currentDomain := Some ''constructor''\<rparr>
   \<and> run constructorRun initial
     = tracking\<lparr>currentTabId := Some 11, currentDomain := Some ''constructor''\<rparr>
   \<and> activityData (storage (run constructorRun initial)) = []
   \<and> dailyData (storage (run constructorRun initial)) = []"
proof -
  let ?s = "tracking\<lparr>currentTabId := Some 11, currentDomain := Some ''constructor''\<rparr>"
  have throws: "recordSession (envAt 6000) None ''constructor'' 5 ''1970-01-01'' (storage initial)
                  = Inl TypeError"
    by (simp add: recordSession_inherited initial_def)
  have start: "onStartup (envAt 1000) (Some [constructorTab]) initial = ?s"
    by (simp add: onStartup_def getDomainFromUrl_def constructorTab_def sampleURL_def
        startTracking_def initial_def tracking_def)
  have flush: "saveCurrentSession (envAt 6000) ?s = Inl (TypeError, ?s)"
    by (simp add: saveCurrentSession_def recordSession_inherited tracking_def
        truthy_str_def truthy_num_def Let_def)
  have "run constructorRun initial = ?s"
    by (simp add: run_def constructorRun_def start onActivated_def flush)
  with throws start show ?thesis
    by (simp add: run_def tracking_def)
qed

subsection \<open>Sessions in a row\<close>

text \<open>
  C7 fails on the code. In the first run example.com is in front from time 1000 to
  time 9000, eight seconds, and thirteen are recorded: the activation of a tab that is
  gone flushes five seconds and does not clear or restart the session (the
  \<^verbatim>\<open>catch\<close> of lines 129-131), so the next flush counts from time 1000 again. In the
  second run example.com is in front from time 1000 to time 6000, when the focus goes to
  another browser window: the branch of lines 159-178 starts the new session without a
  flush, and the five seconds are recorded nowhere.
\<close>

theorem lost_tab_books_thirteen:
  "totalTimeOf (storage (run lostTabRun initial)) ''example.com'' = 13
   \<and> visitsOf (storage (run lostTabRun initial)) ''example.com'' = 2
   \<and> totalTimeOf (storage (run windowRun initial)) ''example.com'' = 0
   \<and> totalTimeOf (storage (run windowRun initial)) ''newtab'' = 3"
proof -
  let ?late = "upsert (envAt 9000) ''example.com'' 8 (getDateKey 9000) fiveSeconds"
  have again: "saveCurrentSession (envAt 9000) (tracking\<lparr>storage := fiveSeconds\<rparr>)
                 = Inr (tracking\<lparr>storage := ?late\<rparr>)"
    by (simp add: saveCurrentSession_def recordSession_plain tracking_def
        truthy_str_def truthy_num_def Let_def)
  have "storage (run lostTabRun initial) = ?late"
    by (simp add: run_def lostTabRun_def startup_tracking onActivated_def tracking_flush again
        getDomainFromUrl_def newTab_def sampleURL_def startTracking_def)
       (simp add: tracking_def)
  moreover have "totalTimeOf fiveSeconds ''example.com'' = 5"
    and "visitsOf fiveSeconds ''example.com'' = 1"
    by (simp_all add: totalTimeOf_def visitsOf_def fiveSeconds_def)
  ultimately have lost: "totalTimeOf (storage (run lostTabRun initial)) ''example.com'' = 13
      \<and> visitsOf (storage (run lostTabRun initial)) ''example.com'' = 2"
    by (simp add: upsert_totalTimeOf upsert_visitsOf)
  let ?other = "tracking\<lparr>currentTabId := Some 8, currentDomain := Some ''newtab'',
                         sessionStartTime := Some 6000\<rparr>"
  have window: "onFocusChanged (envAt 6000) 2 (Some [newTab]) tracking = ?other"
    by (simp add: onFocusChanged_def WINDOW_ID_NONE_def getDomainFromUrl_def newTab_def
        sampleURL_def startTracking_def tracking_def Let_def)
  have close: "saveCurrentSession (envAt 9000) ?other
                 = Inr (?other\<lparr>storage := upsert (envAt 9000) ''newtab'' 3 (getDateKey 9000)
                                              (storage tracking)\<rparr>)"
    by (simp add: saveCurrentSession_def recordSession_plain tracking_def
        truthy_str_def truthy_num_def Let_def)
  have "storage (onFocusChanged (envAt 9000) WINDOW_ID_NONE None ?other)
          = upsert (envAt 9000) ''newtab'' 3 (getDateKey 9000) (storage tracking)"
    by (simp add: onFocusChanged_def close)
  then have "storage (run windowRun initial)
          = upsert (envAt 9000) ''newtab'' 3 (getDateKey 9000) (storage tracking)"
    by (simp add: run_def windowRun_def startup_tracking window)
  moreover have "totalTimeOf (storage tracking) d = 0" for d
    by (simp add: totalTimeOf_def tracking_def)
  ultimately have "totalTimeOf (storage (run windowRun initial)) ''example.com'' = 0
      \<and> totalTimeOf (storage (run windowRun initial)) ''newtab'' = 3"
    by (simp add: upsert_totalTimeOf)
  with lost show ?thesis by simp
qed

subsection \<open>Domain resolution\<close>

lemma saveCurrentSession_reset: "saveCurrentSession e (resetSession s) = Inr (resetSession s)"
  by (rule saveCurrentSession_unfocused) (simp add: resetSession_def)

text \<open>
  C8, as the code has it. \<^verbatim>\<open>getDomainFromUrl\<close> returns \<^verbatim>\<open>null\<close> when
  \<^verbatim>\<open>new URL\<close> throws and the host name of the parsed URL otherwise, whatever the
  scheme; it raises nothing. When the URL of a tab yields no domain or an empty host name
  and the flush of the session before it has returned, the tab-activated and tab-updated
  listeners clear the session: no tab, no domain and no start time are set, and a flush of
  the cleared session returns without an error and changes nothing. The start-up query of a
  starting worker, which has no session yet, opens none for such a tab.
\<close>

theorem unresolved_domain_skipped:
  "getDomainFromUrl e None = None
   \<and> (newURL e str = None \<longrightarrow> getDomainFromUrl e (Some str) = None)
   \<and> (newURL e str = Some u \<longrightarrow> getDomainFromUrl e (Some str) = Some (hostname u))
   \<and> (\<not> truthy_str (getDomainFromUrl e (tab_url t)) \<and> saveCurrentSession e s = Inr s1
      \<longrightarrow> onActivated e tabId (Some t) s = resetSession s1
          \<and> currentTabId (onActivated e tabId (Some t) s) = None
          \<and> currentDomain (onActivated e tabId (Some t) s) = None
          \<and> sessionStartTime (onActivated e tabId (Some t) s) = None
          \<and> saveCurrentSession e' (onActivated e tabId (Some t) s)
              = Inr (onActivated e tabId (Some t) s))
   \<and> (\<not> truthy_str (getDomainFromUrl e changeUrl) \<and> truthy_str changeUrl
        \<and> currentTabId s = Some tabId \<and> saveCurrentSession e s = Inr s1
      \<longrightarrow> onUpdated e tabId changeUrl s = resetSession s1
          \<and> currentTabId (onUpdated e tabId changeUrl s) = None
          \<and> currentDomain (onUpdated e tabId changeUrl s) = None
          \<and> sessionStartTime (onUpdated e tabId changeUrl s) = None
          \<and> saveCurrentSession e' (onUpdated e tabId changeUrl s)
              = Inr (onUpdated e tabId changeUrl s))
   \<and> (\<not> truthy_str (getDomainFromUrl e (tab_url t))
      \<longrightarrow> onStartup e (Some (t # ts)) initial = initial
          \<and> saveCurrentSession e' initial = Inr initial)"
proof -
  have activated: "onActivated e tabId (Some t) s = resetSession s1"
    if "\<not> truthy_str (getDomainFromUrl e (tab_url t))" and "saveCurrentSession e s = Inr s1"
    using that by (auto simp: onActivated_def truthy_str_def split: option.splits)
  have updated: "onUpdated e tabId changeUrl s = resetSession s1"
    if "\<not> truthy_str (getDomainFromUrl e changeUrl)" and "truthy_str changeUrl"
      and "currentTabId s = Some tabId" and "saveCurrentSession e s = Inr s1"
    using that by (auto simp: onUpdated_def truthy_str_def split: option.splits)
  have cleared: "currentTabId (resetSession s1) = None \<and> currentDomain (resetSession s1) = None
                 \<and> sessionStartTime (resetSession s1) = None"
    by (simp add: resetSession_def)
  have fresh: "saveCurrentSession e' initial = Inr initial"
    by (rule saveCurrentSession_unfocused) (simp add: initial_def)
  show ?thesis
  proof (intro conjI impI)
    show "getDomainFromUrl e None = None"
      by (simp add: getDomainFromUrl_def)
    show "getDomainFromUrl e (Some str) = None" if "newURL e str = None"
      using that by (simp add: getDomainFromUrl_def)
    show "getDomainFromUrl e (Some str) = Some (hostname u)" if "newURL e str = Some u"
      using that by (simp add: getDomainFromUrl_def)
    show "onStartup e (Some (t # ts)) initial = initial"
      if "\<not> truthy_str (getDomainFromUrl e (tab_url t))"
      using that by (auto simp: onStartup_def truthy_str_def split: option.splits)
    show "saveCurrentSession e' initial = Inr initial"
      by (rule fresh)
  qed (use activated updated cleared saveCurrentSession_reset in \<open>metis\<close>)+
qed

theorem unresolved_domain_skipped_witness:
  "newURL (envAt 6000) ''not a url'' = None
   \<and> getDomainFromUrl (envAt 6000) (Some ''https://example.com/page'') = Some ''example.com''
   \<and> \<not> truthy_str (getDomainFromUrl (envAt 6000) (tab_url brokenTab))
   \<and> \<not> truthy_str (getDomainFromUrl (envAt 6000) (tab_url hiddenTab))
   \<and> saveCurrentSession (envAt 6000) tracking = Inr (tracking\<lparr>storage := fiveSeconds\<rparr>)
   \<and> onActivated (envAt 6000) 9 (Some brokenTab) tracking
       = resetSession (tracking\<lparr>storage := fiveSeconds\<rparr>)
   \<and> currentDomain (onActivated (envAt 6000) 9 (Some brokenTab) tracking) = None
   \<and> sessionStartTime (onActivated (envAt 6000) 9 (Some brokenTab) tracking) = None
   \<and> truthy_str (tab_url brokenTab) \<and> currentTabId tracking = Some 7
   \<and> onUpdated (envAt 6000) 7 (tab_url brokenTab) tracking
       = resetSession (tracking\<lparr>storage := fiveSeconds\<rparr>)
   \<and> onStartup (envAt 6000) (Some [hiddenTab]) initial = initial"
proof -
  have broken: "\<not> truthy_str (getDomainFromUrl (envAt 6000) (tab_url brokenTab))"
    and hidden: "\<not> truthy_str (getDomainFromUrl (envAt 6000) (tab_url hiddenTab))"
    and changed: "truthy_str (tab_url brokenTab)" and same: "currentTabId tracking = Some 7"
    and none: "newURL (envAt 6000) ''not a url'' = None"
    and some: "newURL (envAt 6000) ''https://example.com/page''
                 = Some \<lparr>protocol = ''https:'', hostname = ''example.com''\<rparr>"
    by (simp_all add: getDomainFromUrl_def brokenTab_def hiddenTab_def sampleURL_def
        truthy_str_def tracking_def)
  from unresolved_domain_skipped [where e = "envAt 6000" and str = "''not a url''"
      and t = brokenTab and s = tracking and tabId = 9 and e' = "envAt 9000"
      and changeUrl = "tab_url brokenTab" and ts = "[]"
      and ?s1.0 = "tracking\<lparr>storage := fiveSeconds\<rparr>"]
    broken tracking_flush
  have act: "onActivated (envAt 6000) 9 (Some brokenTab) tracking
       = resetSession (tracking\<lparr>storage := fiveSeconds\<rparr>)
     \<and> currentDomain (onActivated (envAt 6000) 9 (Some brokenTab) tracking) = None
     \<and> sessionStartTime (onActivated (envAt 6000) 9 (Some brokenTab) tracking) = None"
    by (simp add: resetSession_def)
  from unresolved_domain_skipped [where e = "envAt 6000" and str = "''https://example.com/page''"
      and u = "\<lparr>protocol = ''https:'', hostname = ''example.com''\<rparr>"
      and t = hiddenTab and s = tracking and tabId = 7 and e' = "envAt 9000"
      and changeUrl = "tab_url brokenTab" and ts = "[]"
      and ?s1.0 = "tracking\<lparr>storage := fiveSeconds\<rparr>"]
    broken hidden changed same some tracking_flush
  have upd: "getDomainFromUrl (envAt 6000) (Some ''https://example.com/page'') = Some ''example.com''
     \<and> onUpdated (envAt 6000) 7 (tab_url brokenTab) tracking
         = resetSession (tracking\<lparr>storage := fiveSeconds\<rparr>)
     \<and> onStartup (envAt 6000) (Some [hiddenTab]) initial = initial"
    by (simp add: resetSession_def)
  from act upd broken hidden changed same none tracking_flush show ?thesis
    by (simp add: resetSession_def)
qed

text \<open>
  C8 as stated fails: \<^verbatim>\<open>chrome://newtab/\<close> is not an http URL, it parses, its host name
  is \<^verbatim>\<open>newtab\<close>, and activating its tab opens a session for that domain.
\<close>

theorem internal_page_tracked_counterexample:
  "newURL (envAt 1000) ''chrome://newtab/'' = Some \<lparr>protocol = ''chrome:'', hostname = ''newtab''\<rparr>
   \<and> getDomainFromUrl (envAt 1000) (tab_url newTab) = Some ''newtab''
   \<and> currentDomain (onActivated (envAt 1000) 8 (Some newTab) initial) = Some ''newtab''
   \<and> sessionStartTime (onActivated (envAt 1000) 8 (Some newTab) initial) = Some 1000"
  by (simp add: onActivated_def getDomainFromUrl_def newTab_def sampleURL_def
      saveCurrentSession_def truthy_str_def initial_def startTracking_def)

text \<open>
  Two listeners that do not clear the session. When the focus comes to a window whose
  active tab yields no domain, the branch of lines 159-178 has no \<^verbatim>\<open>else\<close>: the session
  of example.com stays open, and the next flush books the time in between, 65 seconds
  here. When the flush of line 115 is rejected (the store refuses the write), the
  tab-activated listener stops before it reaches lines 125-127.
\<close>

lemma session_not_cleared:
  "onFocusChanged (envAt 6000) 1 (Some [brokenTab]) tracking = tracking
   \<and> totalTimeOf (storage (onFocusChanged (envAt 66000) WINDOW_ID_NONE None tracking))
        ''example.com'' = 65
   \<and> onActivated ((envAt 6000)\<lparr>set_ok := False\<rparr>) 9 (Some brokenTab) tracking = tracking"
proof -
  have stay: "onFocusChanged (envAt 6000) 1 (Some [brokenTab]) tracking = tracking"
    by (simp add: onFocusChanged_def WINDOW_ID_NONE_def getDomainFromUrl_def brokenTab_def
        sampleURL_def tracking_def Let_def)
  have "saveCurrentSession (envAt 66000) tracking
          = Inr (tracking\<lparr>storage := upsert (envAt 66000) ''example.com'' 65 (getDateKey 66000)
                                        (storage tracking)\<rparr>)"
    by (simp add: saveCurrentSession_def recordSession_plain tracking_def
        truthy_str_def truthy_num_def Let_def)
  then have "storage (onFocusChanged (envAt 66000) WINDOW_ID_NONE None tracking)
          = upsert (envAt 66000) ''example.com'' 65 (getDateKey 66000) (storage tracking)"
    by (simp add: onFocusChanged_def)
  moreover have "totalTimeOf (storage tracking) ''example.com'' = 0"
    by (simp add: totalTimeOf_def tracking_def)
  ultimately have stray: "totalTimeOf (storage (onFocusChanged (envAt 66000) WINDOW_ID_NONE None tracking))
        ''example.com'' = 65"
    by (simp add: upsert_totalTimeOf)
  have "saveCurrentSession ((envAt 6000)\<lparr>set_ok := False\<rparr>) tracking = Inl (StorageError, tracking)"
    by (simp add: saveCurrentSession_def recordSession_plain tracking_def
        truthy_str_def truthy_num_def Let_def)
  then have "onActivated ((envAt 6000)\<lparr>set_ok := False\<rparr>) 9 (Some brokenTab) tracking = tracking"
    by (simp add: onActivated_def)
  with stay stray show ?thesis by simp
qed

subsection \<open>The report\<close>

lemma addNum_zero [simp]: "addNum a (Some 0) = a" "addNum (Some 0) a = a"
  by (auto simp: addNum_def split: option.splits)

lemma addNum_assoc: "addNum (addNum a b) c = addNum a (addNum b c)"
  by (auto simp: addNum_def split: option.splits)

lemma foldl_addNum:
  "foldl (\<lambda>acc kv. if P kv then addNum acc (f kv) else acc) a xs
     = addNum a (sumNums (map f (filter P xs)))"
proof (induction xs arbitrary: a)
  case Nil
  then show ?case by (simp add: sumNums_def)
next
  case (Cons x xs)
  then show ?case by (simp add: sumNums_def addNum_assoc)
qed

lemma visitsInRange_sum:
  "visitsInRange sd today data = sumNums (estimatesInRange sd today data)"
proof -
  have "visitsInRange sd today data
      = foldl (\<lambda>acc kv. if inRange sd today (fst kv) \<and> 0 < snd kv
                          then addNum acc (visitEstimate (visits data) (snd kv) (totalTime data))
                          else acc) (Some 0) (dailyBreakdown data)"
    by (simp add: visitsInRange_def case_prod_beta)
  then show ?thesis
    by (simp add: foldl_addNum estimatesInRange_def)
qed

lemma addSite_time:
  "timeOf (fst (addSite now72 ad (stats, tot) (d0, t))) d
     = timeOf stats d + (if d = d0 then t else 0)"
  by (auto simp: addSite_def timeOf_def Let_def update_conv' split: option.splits)


lemma addSite_fresh:
  assumes "freshStats stats"
  shows "freshStats (fst (addSite now72 ad (stats, tot) e))"
proof -
  obtain d0 t where e: "e = (d0, t)" by (cases e)
  let ?st0 = "case map_of stats d0 of
                None \<Rightarrow> \<lparr>site_time = 0, site_visits = Some 0,
                          site_lastVisit = lastVisitOr now72 ad d0\<rparr>
              | Some st \<Rightarrow> st"
  have zero: "site_visits ?st0 = Some 0"
  proof (cases "map_of stats d0")
    case None
    then show ?thesis by simp
  next
    case (Some st)
    then have "(d0, st) \<in> set stats" by (rule map_of_SomeD)
    with assms Some show ?thesis by (auto simp: freshStats_def)
  qed
  have new: "fst (addSite now72 ad (stats, tot) e)
               = AList.update d0 (?st0\<lparr>site_time := site_time ?st0 + t\<rparr>) stats"
    by (simp add: addSite_def e Let_def)
  show ?thesis
    unfolding new freshStats_def
    using assms zero set_update_subset [of d0 "?st0\<lparr>site_time := site_time ?st0 + t\<rparr>" stats]
    by (auto simp: freshStats_def distinct_update)
qed

lemma addSite_fold:
  "timeOf (fst (foldl (addSite now72 ad) (stats, tot) es)) d
     = timeOf stats d + sum_list (map snd (filter (\<lambda>kv. fst kv = d) es))"
proof (induction es arbitrary: stats tot)
  case Nil
  then show ?case by simp
next
  case (Cons e es)
  obtain d0 t where e: "e = (d0, t)" by (cases e)
  obtain stats1 tot1 where one: "addSite now72 ad (stats, tot) (d0, t) = (stats1, tot1)"
    by (cases "addSite now72 ad (stats, tot) (d0, t)")
  have "timeOf stats1 d = timeOf stats d + (if d = d0 then t else 0)"
    using addSite_time [of now72 ad stats tot d0 t d] one by simp
  with Cons.IH [of stats1 tot1] e one show ?case by simp
qed

lemma addSite_fold_fresh:
  "freshStats stats \<Longrightarrow> freshStats (fst (foldl (addSite now72 ad) (stats, tot) es))"
proof (induction es arbitrary: stats tot)
  case Nil
  then show ?case by simp
next
  case (Cons e es)
  obtain stats1 tot1 where one: "addSite now72 ad (stats, tot) e = (stats1, tot1)"
    by (cases "addSite now72 ad (stats, tot) e")
  have "freshStats stats1"
    using addSite_fresh [OF Cons.prems, of now72 ad tot e] one by simp
  from Cons.IH [OF this, of tot1] one show ?case by simp
qed

lemma addDay_fold:
  "timeOf (fst (foldl (addDay now72 ad sd today) (stats, tot) dd)) d
     = timeOf stats d + secondsInRange sd today dd d"
proof (induction dd arbitrary: stats tot)
  case Nil
  then show ?case by (simp add: secondsInRange_def)
next
  case (Cons day dd)
  obtain stats1 tot1 where one: "addDay now72 ad sd today (stats, tot) day = (stats1, tot1)"
    by (cases "addDay now72 ad sd today (stats, tot) day")
  have "timeOf stats1 d
      = timeOf stats d
        + (if inRange sd today (fst day)
           then sum_list (map snd (filter (\<lambda>kv. fst kv = d) (domains (snd day)))) else 0)"
    using one addSite_fold [of now72 ad stats tot "domains (snd day)" d]
    by (cases day) (auto simp: addDay_def split: if_splits)
  with Cons.IH [of stats1 tot1] one show ?case
    by (simp add: secondsInRange_def)
qed

lemma addDay_fold_fresh:
  "freshStats stats \<Longrightarrow> freshStats (fst (foldl (addDay now72 ad sd today) (stats, tot) dd))"
proof (induction dd arbitrary: stats tot)
  case Nil
  then show ?case by simp
next
  case (Cons day dd)
  obtain stats1 tot1 where one: "addDay now72 ad sd today (stats, tot) day = (stats1, tot1)"
    by (cases "addDay now72 ad sd today (stats, tot) day")
  have "freshStats stats1"
    using one Cons.prems addSite_fold_fresh [of stats now72 ad tot "domains (snd day)"]
    by (cases day) (auto simp: addDay_def split: if_splits)
  from Cons.IH [OF this, of tot1] one show ?case by simp
qed

lemma setVisits_fold:
  assumes "distinct (map fst ad)"
  shows "map_of (fst (foldl (setVisits sd today) (stats, tv) ad)) d
           = map_option (\<lambda>st. st\<lparr>site_visits :=
                 (case map_of ad d of None \<Rightarrow> site_visits st
                  | Some data \<Rightarrow> visitsInRange sd today data)\<rparr>) (map_of stats d)
         \<and> map fst (fst (foldl (setVisits sd today) (stats, tv) ad)) = map fst stats"
  using assms
proof (induction ad arbitrary: stats tv)
  case Nil
  then show ?case by (cases "map_of stats d") simp_all
next
  case (Cons entry ad)
  obtain d0 data0 where entry: "entry = (d0, data0)" by (cases entry)
  obtain stats1 tv1 where one: "setVisits sd today (stats, tv) (d0, data0) = (stats1, tv1)"
    by (cases "setVisits sd today (stats, tv) (d0, data0)")
  have fresh: "map_of ad d0 = None"
    using Cons.prems entry by (simp add: map_of_eq_None_iff)
  have rest: "distinct (map fst ad)"
    using Cons.prems by simp
  have look: "map_of stats1 d
      = (if d = d0 then map_option (\<lambda>st. st\<lparr>site_visits := visitsInRange sd today data0\<rparr>)
                           (map_of stats d0)
         else map_of stats d)"
    using one by (auto simp: setVisits_def Let_def update_conv' split: option.splits)
  have keys: "map fst stats1 = map fst stats"
  proof (cases "map_of stats d0")
    case None
    with one show ?thesis by (simp add: setVisits_def Let_def)
  next
    case (Some st)
    then have "d0 \<in> fst ` set stats"
      by (metis map_of_eq_None_iff option.distinct(1))
    then have "map fst (AList.update d0 (st\<lparr>site_visits := visitsInRange sd today data0\<rparr>) stats)
                 = map fst stats"
      by (simp add: update_keys)
    moreover have "stats1 = AList.update d0 (st\<lparr>site_visits := visitsInRange sd today data0\<rparr>) stats"
      using Some one by (simp add: setVisits_def Let_def)
    ultimately show ?thesis by simp
  qed
  from Cons.IH [OF rest, of stats1 tv1] look keys fresh entry one show ?case
    by (cases "map_of stats d") (auto split: option.splits)
qed


lemma addSite_fold_keys:
  "fst ` set (fst (foldl (addSite now72 ad) (stats, tot) es)) = fst ` set stats \<union> fst ` set es"
proof (induction es arbitrary: stats tot)
  case Nil
  then show ?case by simp
next
  case (Cons e es)
  obtain d0 t where e: "e = (d0, t)" by (cases e)
  obtain stats1 tot1 where one: "addSite now72 ad (stats, tot) (d0, t) = (stats1, tot1)"
    by (cases "addSite now72 ad (stats, tot) (d0, t)")
  then have "\<exists>v. stats1 = AList.update d0 v stats"
    by (auto simp: addSite_def Let_def)
  then have "fst ` set stats1 = insert d0 (fst ` set stats)"
    using dom_update [of d0 _ stats] by auto
  with Cons.IH [of stats1 tot1] e one show ?case by auto
qed

lemma addDay_fold_keys:
  "fst ` set (fst (foldl (addDay now72 ad sd today) (stats, tot) dd))
     = fst ` set stats \<union> domainsInRange sd today dd"
proof (induction dd arbitrary: stats tot)
  case Nil
  then show ?case by (simp add: domainsInRange_def)
next
  case (Cons day dd)
  obtain stats1 tot1 where one: "addDay now72 ad sd today (stats, tot) day = (stats1, tot1)"
    by (cases "addDay now72 ad sd today (stats, tot) day")
  have "fst ` set stats1
      = fst ` set stats
        \<union> (if inRange sd today (fst day) then fst ` set (domains (snd day)) else {})"
    using one addSite_fold_keys [of now72 ad stats tot "domains (snd day)"]
    by (cases day) (auto simp: addDay_def split: if_splits)
  with Cons.IH [of stats1 tot1] one show ?case
    by (auto simp: domainsInRange_def split: if_splits)
qed

lemma top_of_sorted:
  fixes f :: "'a \<Rightarrow> int"
  shows "length (take 10 (sort_key f S)) = min 10 (length S)"
    and "sorted_wrt (\<lambda>a b. f a \<le> f b) (take 10 (sort_key f S))"
    and "set (take 10 (sort_key f S)) \<subseteq> set S"
    and "\<forall>x \<in> set (take 10 (sort_key f S)). \<forall>y \<in> set S - set (take 10 (sort_key f S)). f x \<le> f y"
proof -
  let ?xs = "sort_key f S"
  have srt: "sorted (map f ?xs)" by (rule sorted_sort_key)
  have split: "map f (take 10 ?xs) @ map f (drop 10 ?xs) = map f ?xs"
    by (simp flip: map_append)
  from srt have both: "sorted (map f (take 10 ?xs) @ map f (drop 10 ?xs))"
    unfolding split .
  show "length (take 10 ?xs) = min 10 (length S)" by simp
  show "sorted_wrt (\<lambda>a b. f a \<le> f b) (take 10 ?xs)"
    using both by (simp add: sorted_append sorted_map)
  show "set (take 10 ?xs) \<subseteq> set S"
    using set_take_subset [of 10 ?xs] by simp
  have "set S = set (take 10 ?xs) \<union> set (drop 10 ?xs)"
    by (metis append_take_drop_id set_append set_sort)
  then show "\<forall>x \<in> set (take 10 ?xs). \<forall>y \<in> set S - set (take 10 ?xs). f x \<le> f y"
    using both by (auto simp: sorted_append)
qed

text \<open>
  C9, as the code has it. For every store whose host names are distinct keys of
  \<^verbatim>\<open>activityData\<close> and none of them the name of a member of \<^verbatim>\<open>Object.prototype\<close>,
  and for every range, the sites of \<^verbatim>\<open>processData\<close> are the domains that occur in a
  day of the range, each once. \<^verbatim>\<open>topSites\<close> holds ten of them, or all of them when
  there are fewer than ten, ordered by time descending, and no site left out has more
  time than a site returned. The time of a returned site is the sum of its seconds in the
  days of the range; and its visit count is the sum, over the dates of the range with
  positive seconds in its breakdown, of \<^verbatim>\<open>Math.ceil\<close> of the double-precision product
  of its lifetime visits and the double-precision quotient of those seconds by its
  lifetime total time (0 for a domain without an \<^verbatim>\<open>activityData\<close> entry).
\<close>

theorem report_top_sites:
  assumes "distinct (map fst ad)" and "plainNames ad dd"
  shows "let R = processData now now72 ad dd rng; sd = startDateOf now rng;
             today = getDateKey now; S = fst (fst (siteStats now now72 ad dd rng))
         in fst ` set S = domainsInRange sd today dd \<and> distinct (map fst S)
          \<and> length (topSites R) = min 10 (card (domainsInRange sd today dd))
          \<and> uniqueSites R = length (topSites R)
          \<and> sorted_wrt (\<lambda>a b. site_time (snd b) \<le> site_time (snd a)) (topSites R)
          \<and> set (topSites R) \<subseteq> set S
          \<and> (\<forall>x \<in> set (topSites R). \<forall>y \<in> set S - set (topSites R).
                site_time (snd y) \<le> site_time (snd x))
          \<and> (\<forall>kv \<in> set (topSites R).
                site_time (snd kv) = secondsInRange sd today dd (fst kv)
                \<and> site_visits (snd kv)
                    = (case map_of ad (fst kv) of
                         None \<Rightarrow> Some 0
                       | Some data \<Rightarrow> sumNums (estimatesInRange sd today data)))"
proof -
  define sd where "sd = startDateOf now rng"
  define today where "today = getDateKey now"
  define timed where "timed = foldl (addDay now72 ad sd today) ([], 0) dd"
  define S1 where "S1 = fst timed"
  define S where "S = fst (foldl (setVisits sd today) (S1, Some 0) ad)"
  define R where "R = processData now now72 ad dd rng"
  have S: "fst (fst (siteStats now now72 ad dd rng)) = S"
    by (simp add: siteStats_def S_def S1_def timed_def sd_def today_def Let_def)
  have best: "topSites R = take 10 (sort_key (\<lambda>kv. - site_time (snd kv)) S)"
    and uniq: "uniqueSites R = length (topSites R)"
    using S by (auto simp: R_def processData_def Let_def split: prod.splits)
  have fresh1: "freshStats S1"
    unfolding S1_def timed_def
    by (rule addDay_fold_fresh) (simp add: freshStats_def)
  have time1: "timeOf S1 d = secondsInRange sd today dd d" for d
    unfolding S1_def timed_def
    using addDay_fold [of now72 ad sd today "[]" 0 dd d] by (simp add: timeOf_def)
  have keys1: "fst ` set S1 = domainsInRange sd today dd"
    unfolding S1_def timed_def
    using addDay_fold_keys [of now72 ad sd today "[]" 0 dd] by simp
  have look: "map_of S d
      = map_option (\<lambda>st. st\<lparr>site_visits :=
            (case map_of ad d of None \<Rightarrow> site_visits st
             | Some data \<Rightarrow> visitsInRange sd today data)\<rparr>) (map_of S1 d)"
    and keys: "map fst S = map fst S1" for d
    unfolding S_def using setVisits_fold [OF assms(1), of sd today S1 "Some 0"] by auto
  have dist: "distinct (map fst S)"
    using keys fresh1 by (simp add: freshStats_def)
  have entry: "site_time (snd kv) = secondsInRange sd today dd (fst kv)
        \<and> site_visits (snd kv)
            = (case map_of ad (fst kv) of
                 None \<Rightarrow> Some 0
               | Some data \<Rightarrow> sumNums (estimatesInRange sd today data))"
    if "kv \<in> set S" for kv
  proof -
    obtain d st where kv: "kv = (d, st)" by (cases kv)
    with that dist have "map_of S d = Some st" by simp
    with look [of d] obtain st1 where st1: "map_of S1 d = Some st1"
      and st: "st = st1\<lparr>site_visits :=
            (case map_of ad d of None \<Rightarrow> site_visits st1
             | Some data \<Rightarrow> visitsInRange sd today data)\<rparr>"
      by (cases "map_of S1 d") auto
    from st1 have "(d, st1) \<in> set S1" by (rule map_of_SomeD)
    with fresh1 have zero: "site_visits st1 = Some 0"
      by (auto simp: freshStats_def)
    from st1 time1 [of d] have "site_time st1 = secondsInRange sd today dd d"
      by (simp add: timeOf_def)
    with st zero kv show ?thesis
      by (simp add: visitsInRange_sum split: option.splits)
  qed
  have keysS: "fst ` set S = domainsInRange sd today dd"
    using keys keys1 by (metis set_map)
  note tops = top_of_sorted [of "\<lambda>kv. - site_time (snd kv)" S]
  have "card (fst ` set S) = length S"
    using dist distinct_card [of "map fst S"] by simp
  then have "length (topSites R) = min 10 (card (domainsInRange sd today dd))"
    unfolding best tops(1) keysS by simp
  moreover have "sorted_wrt (\<lambda>a b. site_time (snd b) \<le> site_time (snd a)) (topSites R)"
    unfolding best using tops(2) by simp
  moreover have sub: "set (topSites R) \<subseteq> set S"
    unfolding best by (rule tops(3))
  moreover have "\<forall>x \<in> set (topSites R). \<forall>y \<in> set S - set (topSites R).
                site_time (snd y) \<le> site_time (snd x)"
    unfolding best using tops(4) by simp
  moreover have "\<forall>kv \<in> set (topSites R).
                site_time (snd kv) = secondsInRange sd today dd (fst kv)
                \<and> site_visits (snd kv)
                    = (case map_of ad (fst kv) of
                         None \<Rightarrow> Some 0
                       | Some data \<Rightarrow> sumNums (estimatesInRange sd today data))"
    using sub entry by blast
  ultimately show ?thesis
    using keysS dist uniq unfolding Let_def S R_def [symmetric] sd_def [symmetric] today_def [symmetric]
    by simp
qed


subsection \<open>One estimate, step by step\<close>

lemma quotient_7_25: "toDouble (7 / 25) = 1261007895663739 / 4503599627370496"
  by code_simp

lemma product_25: "toDouble (25 * (1261007895663739 / 4503599627370496))
                     = 7881299347898369 / 1125899906842624"
  by code_simp

lemma estimate_25_7_25: "visitEstimate 25 7 25 = Some 8"
proof -
  have "toDouble (of_int 25 * toDouble (of_int 7 / of_int 25)) = toDouble (25 * toDouble (7 / 25))"
    by simp
  also have "\<dots> = toDouble (25 * (1261007895663739 / 4503599627370496))"
    by (simp only: quotient_7_25)
  also have "\<dots> = 7881299347898369 / 1125899906842624"
    by (rule product_25)
  finally have val: "toDouble (of_int 25 * toDouble (of_int 7 / of_int 25))
          = (7881299347898369 / 1125899906842624 :: rat)" .
  have up: "\<lceil>(7881299347898369 / 1125899906842624 :: rat)\<rceil> = 8"
    by code_simp
  show ?thesis
    unfolding visitEstimate_def val up by simp
qed

lemma exact_25_7_25: "exactEstimate 25 7 25 = 7"
  by (simp add: exactEstimate_def)

lemma report_example:
  "processData 6000 6000 reportActivity reportDaily ''today''
     = \<lparr>report_totalTime = 7, totalVisits = Some 8, uniqueSites = 1,
        topSites = [(''example.com'',
                     \<lparr>site_time = 7, site_visits = Some 8, site_lastVisit = 6000\<rparr>)]\<rparr>"
  by (simp add: processData_def siteStats_def startDateOf_def key6000 addDay_def addSite_def
      setVisits_def visitsInRange_def inRange_def lastVisitOr_def reportActivity_def
      reportDaily_def estimate_25_7_25 addNum_def Let_def)

text \<open>The report for "today" on 1970-01-01 over the sample store.\<close>

theorem report_top_sites_witness:
  "distinct (map fst reportActivity) \<and> plainNames reportActivity reportDaily
   \<and> domainsInRange (startDateOf 6000 ''today'') (getDateKey 6000) reportDaily = {''example.com''}
   \<and> length (topSites (processData 6000 6000 reportActivity reportDaily ''today'')) = 1
   \<and> topSites (processData 6000 6000 reportActivity reportDaily ''today'')
       = [(''example.com'', \<lparr>site_time = 7, site_visits = Some 8, site_lastVisit = 6000\<rparr>)]
   \<and> secondsInRange (startDateOf 6000 ''today'') (getDateKey 6000) reportDaily ''example.com'' = 7
   \<and> estimatesInRange (startDateOf 6000 ''today'') (getDateKey 6000)
        \<lparr>totalTime = 25, visits = 25, lastVisit = 6000,
         dailyBreakdown = [(''1969-12-01'', 18), (''1970-01-01'', 7)]\<rparr> = [Some 8]"
proof -
  have plain: "plainNames reportActivity reportDaily"
    by (simp add: plainNames_def reportActivity_def reportDaily_def objectPrototypeNames_def)
  have keys: "distinct (map fst reportActivity)"
    by (simp add: reportActivity_def)
  from report_top_sites [OF keys plain, of 6000 6000 "''today''"] report_example plain keys
  show ?thesis
    by (simp add: reportActivity_def reportDaily_def secondsInRange_def estimatesInRange_def
        domainsInRange_def startDateOf_def key6000 inRange_def estimate_25_7_25 Let_def)
qed

text \<open>
  C9 as stated fails when the scaling is read in exact arithmetic: 25 visits scaled by
  7/25 are 7, and rounding 7 up leaves 7; the report says 8, because the double nearest
  to 7/25 is above 7/25 and 25 times it rounds to the double after 7.
\<close>

theorem exact_estimate_counterexample:
  "topSites (processData 6000 6000 reportActivity reportDaily ''today'')
     = [(''example.com'', \<lparr>site_time = 7, site_visits = Some 8, site_lastVisit = 6000\<rparr>)]
   \<and> exactEstimate 25 7 25 = 7"
  using report_example exact_25_7_25 by simp


end
